theory Spec2Isabelle
  imports Complex_Main
begin

section \<open>Screenshot editor: the ownership-scoped action layer\<close>

text \<open>
  A shallow embedding of \<^verbatim>\<open>db/tables.ts\<close> (the three tables) and of
  \<^verbatim>\<open>src/actions/index.ts\<close> (the eight actions). Every action is a function of the
  caller's raw input, the request context, the two readings it takes from its environment
  (\<^verbatim>\<open>crypto.randomUUID()\<close> and \<^verbatim>\<open>new Date()\<close>) and the store; it returns
  either the thrown error or the response, together with the store it leaves behind.
\<close>

subsection \<open>Values\<close>

text \<open>
  A JavaScript number that passed \<^verbatim>\<open>z.number()\<close> is a double; the actions only
  store and return it, so it is carried as a real number. A \<^verbatim>\<open>Date\<close> is its
  millisecond timestamp.
\<close>

type_synonym number = real
type_synonym date = int

text \<open>
  The unparsed input of an action: a JSON-like value. An object is its list of key/value
  pairs in insertion order; a later duplicate key overrides an earlier one, and a key that
  is absent reads as \<^verbatim>\<open>undefined\<close>.
\<close>

datatype jvalue =
    JUndefined
  | JNull
  | JBool bool
  | JNum number
  | JStr string
  | JArr "jvalue list"
  | JObj "(string \<times> jvalue) list"

definition field :: "(string \<times> jvalue) list \<Rightarrow> string \<Rightarrow> jvalue" where
  "field kvs k = (case map_of (rev kvs) k of None \<Rightarrow> JUndefined | Some v \<Rightarrow> v)"

subsection \<open>The tables of \<^verbatim>\<open>db/tables.ts\<close>\<close>

text \<open>
  One record per table, one field per column (prefixed with the table's initial, since
  the three tables share column names). A column declared \<^verbatim>\<open>optional: true\<close> holds
  an option; \<open>None\<close> is SQL NULL.
\<close>

record project =
  p_id :: string
  p_userId :: string
  p_title :: "string option"
  p_description :: "string option"
  p_sourceDevice :: "string option"
  p_sourceApp :: "string option"
  p_createdAt :: date
  p_updatedAt :: date

record screenshot =
  s_id :: string
  s_projectId :: "string option"
  s_userId :: string
  s_originalImageUrl :: string
  s_editedImageUrl :: "string option"
  s_width :: "number option"
  s_height :: "number option"
  s_createdAt :: date
  s_updatedAt :: date

record edit =
  e_id :: string
  e_screenshotId :: string
  e_userId :: string
  e_editType :: "string option"
  e_operationsJson :: "string option"
  e_resultImageUrl :: "string option"
  e_createdAt :: date

text \<open>
  The store: the rows of each table in insertion order. \<open>foreignKeys\<close> says whether the
  database engine enforces the two \<^verbatim>\<open>references\<close> declarations of the schema; it is
  a setting of the engine, which no action changes, and every result below holds for
  both values.
\<close>

record store =
  ScreenshotProjects :: "project list"
  Screenshots :: "screenshot list"
  ScreenshotEdits :: "edit list"
  foreignKeys :: bool

definition emptyStore :: "bool \<Rightarrow> store" where
  "emptyStore fk =
     \<lparr>ScreenshotProjects = [], Screenshots = [], ScreenshotEdits = [], foreignKeys = fk\<rparr>"

subsection \<open>Errors, responses, context\<close>

datatype code = UNAUTHORIZED | NOT_FOUND

text \<open>
  An issue of input validation: a field of the wrong type, a string shorter than its
  \<^verbatim>\<open>min(1)\<close>, an input that is not an object, or the message of a failed
  \<^verbatim>\<open>refine\<close>.
\<close>

datatype issue =
    InvalidType string
  | TooSmall string
  | NotAnObject
  | Custom string

text \<open>
  What an action throws: an \<^verbatim>\<open>ActionError\<close> with its code and message, the
  input error that \<^verbatim>\<open>defineAction\<close> raises when the input does not parse, or the
  uncategorised failure of a statement the database rejects (a primary key that is
  already present, a reference to a row that does not exist).
\<close>

datatype error =
    ActionError code string
  | ActionInputError "issue list"
  | PersistenceFailure

datatype payload =
    ProjectData "project option"
  | ProjectItems "project list" nat
  | ScreenshotData "screenshot option"
  | ScreenshotItems "screenshot list" nat
  | EditData "edit option"
  | EditItems "edit list" nat

text \<open>The envelope \<^verbatim>\<open>{ success, data }\<close> every action returns.\<close>

datatype response = Response (success: bool) (data: payload)

type_synonym result = "(error + response) \<times> store"

text \<open>
  Modelled from the spec: the declaration of \<^verbatim>\<open>App.Locals\<close> is not among the
  sources. The actions read \<^verbatim>\<open>context.locals?.user\<close> and, of the user, its
  \<^verbatim>\<open>id\<close>: the identity of the authenticated caller, supplied from outside.
\<close>

record app_user =
  user_id :: string

record app_locals =
  user :: "app_user option"

record api_context =
  locals :: "app_locals option"

text \<open>The two readings an action takes from its environment, at most once each.\<close>

record env =
  randomUUID :: string
  now :: date

text \<open>\<^verbatim>\<open>crypto.randomUUID()\<close> returns a string of 36 characters.\<close>

definition isUUID :: "string \<Rightarrow> bool" where
  "isUUID x = (length x = 36)"

subsection \<open>Database statements\<close>

text \<open>\<^verbatim>\<open>const [x] = rows\<close>: the first row, or \<^verbatim>\<open>undefined\<close>.\<close>

fun first :: "'a list \<Rightarrow> 'a option" where
  "first [] = None"
| "first (x # xs) = Some x"

text \<open>
  \<^verbatim>\<open>insert(...).values(row).returning()\<close>: the statement is rejected when the primary
  key is already in the table, and, where foreign keys are enforced, when the row
  references a parent that does not exist; otherwise the row is appended and returned.
\<close>

definition insertProject :: "project \<Rightarrow> store \<Rightarrow> error + (project list \<times> store)" where
  "insertProject row s =
     (if p_id row \<in> set (map p_id (ScreenshotProjects s)) then Inl PersistenceFailure
      else Inr ([row], s\<lparr>ScreenshotProjects := ScreenshotProjects s @ [row]\<rparr>))"

definition projectExists :: "store \<Rightarrow> string option \<Rightarrow> bool" where
  "projectExists s ref =
     (case ref of None \<Rightarrow> True | Some pid \<Rightarrow> pid \<in> set (map p_id (ScreenshotProjects s)))"

definition insertScreenshot :: "screenshot \<Rightarrow> store \<Rightarrow> error + (screenshot list \<times> store)" where
  "insertScreenshot row s =
     (if s_id row \<in> set (map s_id (Screenshots s)) then Inl PersistenceFailure
      else if foreignKeys s \<and> \<not> projectExists s (s_projectId row) then Inl PersistenceFailure
      else Inr ([row], s\<lparr>Screenshots := Screenshots s @ [row]\<rparr>))"

definition insertEdit :: "edit \<Rightarrow> store \<Rightarrow> error + (edit list \<times> store)" where
  "insertEdit row s =
     (if e_id row \<in> set (map e_id (ScreenshotEdits s)) then Inl PersistenceFailure
      else if foreignKeys s \<and> e_screenshotId row \<notin> set (map s_id (Screenshots s))
        then Inl PersistenceFailure
      else Inr ([row], s\<lparr>ScreenshotEdits := ScreenshotEdits s @ [row]\<rparr>))"

text \<open>
  The \<^verbatim>\<open>set({...})\<close> clause of an update: one optional entry per column the action
  may write (\<open>None\<close>: the column is not in the clause), and \<^verbatim>\<open>updatedAt\<close>, which
  is always there.
\<close>

record project_set =
  set_title :: "string option"
  set_description :: "string option"
  set_sourceDevice :: "string option"
  set_sourceApp :: "string option"
  set_p_updatedAt :: date

definition applyProjectSet :: "project_set \<Rightarrow> project \<Rightarrow> project" where
  "applyProjectSet c p =
     p\<lparr>p_title := (case set_title c of None \<Rightarrow> p_title p | Some v \<Rightarrow> Some v),
       p_description := (case set_description c of None \<Rightarrow> p_description p | Some v \<Rightarrow> Some v),
       p_sourceDevice := (case set_sourceDevice c of None \<Rightarrow> p_sourceDevice p | Some v \<Rightarrow> Some v),
       p_sourceApp := (case set_sourceApp c of None \<Rightarrow> p_sourceApp p | Some v \<Rightarrow> Some v),
       p_updatedAt := set_p_updatedAt c\<rparr>"

text \<open>
  \<^verbatim>\<open>update(ScreenshotProjects).set(c).where(eq(id, pid)).returning()\<close>: every row
  with that id is rewritten in place, and the rewritten rows are returned.
\<close>

definition updateProjects :: "project_set \<Rightarrow> string \<Rightarrow> store \<Rightarrow> error + (project list \<times> store)" where
  "updateProjects c pid s =
     Inr (map (applyProjectSet c) (filter (\<lambda>p. p_id p = pid) (ScreenshotProjects s)),
          s\<lparr>ScreenshotProjects :=
              map (\<lambda>p. if p_id p = pid then applyProjectSet c p else p) (ScreenshotProjects s)\<rparr>)"

record screenshot_set =
  set_projectId :: "string option"
  set_editedImageUrl :: "string option"
  set_width :: "number option"
  set_height :: "number option"
  set_s_updatedAt :: date

definition applyScreenshotSet :: "screenshot_set \<Rightarrow> screenshot \<Rightarrow> screenshot" where
  "applyScreenshotSet c r =
     r\<lparr>s_projectId := (case set_projectId c of None \<Rightarrow> s_projectId r | Some v \<Rightarrow> Some v),
       s_editedImageUrl :=
         (case set_editedImageUrl c of None \<Rightarrow> s_editedImageUrl r | Some v \<Rightarrow> Some v),
       s_width := (case set_width c of None \<Rightarrow> s_width r | Some v \<Rightarrow> Some v),
       s_height := (case set_height c of None \<Rightarrow> s_height r | Some v \<Rightarrow> Some v),
       s_updatedAt := set_s_updatedAt c\<rparr>"

text \<open>
  The update of \<^verbatim>\<open>Screenshots\<close>. Where foreign keys are enforced, writing a
  \<^verbatim>\<open>projectId\<close> that no project has into at least one row is rejected.
\<close>

definition updateScreenshots ::
  "screenshot_set \<Rightarrow> string \<Rightarrow> store \<Rightarrow> error + (screenshot list \<times> store)" where
  "updateScreenshots c sid s =
     (if foreignKeys s \<and> filter (\<lambda>r. s_id r = sid) (Screenshots s) \<noteq> []
         \<and> \<not> projectExists s (set_projectId c)
      then Inl PersistenceFailure
      else Inr (map (applyScreenshotSet c) (filter (\<lambda>r. s_id r = sid) (Screenshots s)),
                s\<lparr>Screenshots :=
                    map (\<lambda>r. if s_id r = sid then applyScreenshotSet c r else r) (Screenshots s)\<rparr>))"

subsection \<open>Input schemas\<close>

text \<open>
  The checks a schema makes on one field: \<^verbatim>\<open>z.string()\<close> accepts a string,
  \<^verbatim>\<open>.optional()\<close> also accepts \<^verbatim>\<open>undefined\<close> (and nothing else: not
  \<^verbatim>\<open>null\<close>), \<^verbatim>\<open>z.number()\<close> accepts a number.
\<close>

definition isString :: "jvalue \<Rightarrow> bool" where
  "isString v = (case v of JStr x \<Rightarrow> True | _ \<Rightarrow> False)"

definition isOptString :: "jvalue \<Rightarrow> bool" where
  "isOptString v = (case v of JUndefined \<Rightarrow> True | JStr x \<Rightarrow> True | _ \<Rightarrow> False)"

definition isOptNumber :: "jvalue \<Rightarrow> bool" where
  "isOptNumber v = (case v of JUndefined \<Rightarrow> True | JNum x \<Rightarrow> True | _ \<Rightarrow> False)"

definition theString :: "jvalue \<Rightarrow> string" where
  "theString v = (case v of JStr x \<Rightarrow> x | _ \<Rightarrow> [])"

definition optString :: "jvalue \<Rightarrow> string option" where
  "optString v = (case v of JStr x \<Rightarrow> Some x | _ \<Rightarrow> None)"

definition optNumber :: "jvalue \<Rightarrow> number option" where
  "optNumber v = (case v of JNum x \<Rightarrow> Some x | _ \<Rightarrow> None)"

text \<open>The fields of the wrong type, in the order of the schema.\<close>

definition typeIssues :: "(string \<times> bool) list \<Rightarrow> issue list" where
  "typeIssues checks = map (\<lambda>c. InvalidType (fst c)) (filter (\<lambda>c. \<not> snd c) checks)"

text \<open>
  A schema returns the parsed input or the issues. A field of the wrong type aborts the
  parse; a string shorter than its minimum does not, so the refinement of an update
  schema is still evaluated then. Keys the schema does not declare are dropped: the
  parsed input has the declared fields and no other.
\<close>

record createProject_input =
  cp_title :: "string option"
  cp_description :: "string option"
  cp_sourceDevice :: "string option"
  cp_sourceApp :: "string option"

definition createProject_schema :: "jvalue \<Rightarrow> issue list + createProject_input" where
  "createProject_schema raw =
     (case raw of
        JObj kvs \<Rightarrow>
          (let types = typeIssues
                 [(''title'', isOptString (field kvs ''title'')),
                  (''description'', isOptString (field kvs ''description'')),
                  (''sourceDevice'', isOptString (field kvs ''sourceDevice'')),
                  (''sourceApp'', isOptString (field kvs ''sourceApp''))]
           in if types \<noteq> [] then Inl types
              else Inr \<lparr>cp_title = optString (field kvs ''title''),
                        cp_description = optString (field kvs ''description''),
                        cp_sourceDevice = optString (field kvs ''sourceDevice''),
                        cp_sourceApp = optString (field kvs ''sourceApp'')\<rparr>)
      | _ \<Rightarrow> Inl [NotAnObject])"

record updateProject_input =
  up_id :: string
  up_title :: "string option"
  up_description :: "string option"
  up_sourceDevice :: "string option"
  up_sourceApp :: "string option"

definition updateProject_refine :: "updateProject_input \<Rightarrow> bool" where
  "updateProject_refine input =
     (up_title input \<noteq> None \<or> up_description input \<noteq> None
      \<or> up_sourceDevice input \<noteq> None \<or> up_sourceApp input \<noteq> None)"

definition updateProject_schema :: "jvalue \<Rightarrow> issue list + updateProject_input" where
  "updateProject_schema raw =
     (case raw of
        JObj kvs \<Rightarrow>
          (let types = typeIssues
                 [(''id'', isString (field kvs ''id'')),
                  (''title'', isOptString (field kvs ''title'')),
                  (''description'', isOptString (field kvs ''description'')),
                  (''sourceDevice'', isOptString (field kvs ''sourceDevice'')),
                  (''sourceApp'', isOptString (field kvs ''sourceApp''))];
               input = \<lparr>up_id = theString (field kvs ''id''),
                        up_title = optString (field kvs ''title''),
                        up_description = optString (field kvs ''description''),
                        up_sourceDevice = optString (field kvs ''sourceDevice''),
                        up_sourceApp = optString (field kvs ''sourceApp'')\<rparr>;
               issues = (if up_id input = [] then [TooSmall ''id''] else [])
                 @ (if updateProject_refine input then []
                    else [Custom ''At least one field must be provided to update.''])
           in if types \<noteq> [] then Inl types
              else if issues \<noteq> [] then Inl issues
              else Inr input)
      | _ \<Rightarrow> Inl [NotAnObject])"

text \<open>\<^verbatim>\<open>z.object({}).optional()\<close>: an object or \<^verbatim>\<open>undefined\<close>.\<close>

definition listProjects_schema :: "jvalue \<Rightarrow> issue list + unit option" where
  "listProjects_schema raw =
     (case raw of
        JUndefined \<Rightarrow> Inr None
      | JObj kvs \<Rightarrow> Inr (Some ())
      | _ \<Rightarrow> Inl [NotAnObject])"

record createScreenshot_input =
  cs_projectId :: "string option"
  cs_originalImageUrl :: string
  cs_editedImageUrl :: "string option"
  cs_width :: "number option"
  cs_height :: "number option"

definition createScreenshot_schema :: "jvalue \<Rightarrow> issue list + createScreenshot_input" where
  "createScreenshot_schema raw =
     (case raw of
        JObj kvs \<Rightarrow>
          (let types = typeIssues
                 [(''projectId'', isOptString (field kvs ''projectId'')),
                  (''originalImageUrl'', isString (field kvs ''originalImageUrl'')),
                  (''editedImageUrl'', isOptString (field kvs ''editedImageUrl'')),
                  (''width'', isOptNumber (field kvs ''width'')),
                  (''height'', isOptNumber (field kvs ''height''))];
               input = \<lparr>cs_projectId = optString (field kvs ''projectId''),
                        cs_originalImageUrl = theString (field kvs ''originalImageUrl''),
                        cs_editedImageUrl = optString (field kvs ''editedImageUrl''),
                        cs_width = optNumber (field kvs ''width''),
                        cs_height = optNumber (field kvs ''height'')\<rparr>
           in if types \<noteq> [] then Inl types
              else if cs_originalImageUrl input = [] then Inl [TooSmall ''originalImageUrl'']
              else Inr input)
      | _ \<Rightarrow> Inl [NotAnObject])"

record updateScreenshot_input =
  us_id :: string
  us_projectId :: "string option"
  us_editedImageUrl :: "string option"
  us_width :: "number option"
  us_height :: "number option"

definition updateScreenshot_refine :: "updateScreenshot_input \<Rightarrow> bool" where
  "updateScreenshot_refine input =
     (us_projectId input \<noteq> None \<or> us_editedImageUrl input \<noteq> None
      \<or> us_width input \<noteq> None \<or> us_height input \<noteq> None)"

definition updateScreenshot_schema :: "jvalue \<Rightarrow> issue list + updateScreenshot_input" where
  "updateScreenshot_schema raw =
     (case raw of
        JObj kvs \<Rightarrow>
          (let types = typeIssues
                 [(''id'', isString (field kvs ''id'')),
                  (''projectId'', isOptString (field kvs ''projectId'')),
                  (''editedImageUrl'', isOptString (field kvs ''editedImageUrl'')),
                  (''width'', isOptNumber (field kvs ''width'')),
                  (''height'', isOptNumber (field kvs ''height''))];
               input = \<lparr>us_id = theString (field kvs ''id''),
                        us_projectId = optString (field kvs ''projectId''),
                        us_editedImageUrl = optString (field kvs ''editedImageUrl''),
                        us_width = optNumber (field kvs ''width''),
                        us_height = optNumber (field kvs ''height'')\<rparr>;
               issues = (if us_id input = [] then [TooSmall ''id''] else [])
                 @ (if updateScreenshot_refine input then []
                    else [Custom ''At least one field must be provided to update.''])
           in if types \<noteq> [] then Inl types
              else if issues \<noteq> [] then Inl issues
              else Inr input)
      | _ \<Rightarrow> Inl [NotAnObject])"

record listScreenshots_input =
  ls_projectId :: "string option"

definition listScreenshots_schema :: "jvalue \<Rightarrow> issue list + listScreenshots_input" where
  "listScreenshots_schema raw =
     (case raw of
        JObj kvs \<Rightarrow>
          (let types = typeIssues [(''projectId'', isOptString (field kvs ''projectId''))]
           in if types \<noteq> [] then Inl types
              else Inr \<lparr>ls_projectId = optString (field kvs ''projectId'')\<rparr>)
      | _ \<Rightarrow> Inl [NotAnObject])"

record createScreenshotEdit_input =
  ce_screenshotId :: string
  ce_editType :: "string option"
  ce_operationsJson :: "string option"
  ce_resultImageUrl :: "string option"

definition createScreenshotEdit_schema ::
  "jvalue \<Rightarrow> issue list + createScreenshotEdit_input" where
  "createScreenshotEdit_schema raw =
     (case raw of
        JObj kvs \<Rightarrow>
          (let types = typeIssues
                 [(''screenshotId'', isString (field kvs ''screenshotId'')),
                  (''editType'', isOptString (field kvs ''editType'')),
                  (''operationsJson'', isOptString (field kvs ''operationsJson'')),
                  (''resultImageUrl'', isOptString (field kvs ''resultImageUrl''))];
               input = \<lparr>ce_screenshotId = theString (field kvs ''screenshotId''),
                        ce_editType = optString (field kvs ''editType''),
                        ce_operationsJson = optString (field kvs ''operationsJson''),
                        ce_resultImageUrl = optString (field kvs ''resultImageUrl'')\<rparr>
           in if types \<noteq> [] then Inl types
              else if ce_screenshotId input = [] then Inl [TooSmall ''screenshotId'']
              else Inr input)
      | _ \<Rightarrow> Inl [NotAnObject])"

record listScreenshotEdits_input =
  le_screenshotId :: string

definition listScreenshotEdits_schema ::
  "jvalue \<Rightarrow> issue list + listScreenshotEdits_input" where
  "listScreenshotEdits_schema raw =
     (case raw of
        JObj kvs \<Rightarrow>
          (let types = typeIssues [(''screenshotId'', isString (field kvs ''screenshotId''))];
               input = \<lparr>le_screenshotId = theString (field kvs ''screenshotId'')\<rparr>
           in if types \<noteq> [] then Inl types
              else if le_screenshotId input = [] then Inl [TooSmall ''screenshotId'']
              else Inr input)
      | _ \<Rightarrow> Inl [NotAnObject])"

text \<open>
  \<^verbatim>\<open>defineAction({ input, handler })\<close>: the raw input is parsed against the schema
  first; when it does not parse, the input error is thrown and the handler is not
  called; otherwise the handler runs on the parsed input.
\<close>

definition defineAction ::
  "(jvalue \<Rightarrow> issue list + 'i) \<Rightarrow> ('i \<Rightarrow> api_context \<Rightarrow> env \<Rightarrow> store \<Rightarrow> result)
     \<Rightarrow> jvalue \<Rightarrow> api_context \<Rightarrow> env \<Rightarrow> store \<Rightarrow> result" where
  "defineAction input handler raw ctx e s =
     (case input raw of
        Inl issues \<Rightarrow> (Inl (ActionInputError issues), s)
      | Inr parsed \<Rightarrow> handler parsed ctx e s)"

subsection \<open>The helpers of \<^verbatim>\<open>src/actions/index.ts\<close>\<close>

definition requireUser :: "api_context \<Rightarrow> error + app_user" where
  "requireUser ctx =
     (case (case locals ctx of None \<Rightarrow> None | Some l \<Rightarrow> user l) of
        None \<Rightarrow> Inl (ActionError UNAUTHORIZED ''You must be signed in to perform this action.'')
      | Some u \<Rightarrow> Inr u)"

definition getOwnedProject :: "string \<Rightarrow> string \<Rightarrow> store \<Rightarrow> error + project" where
  "getOwnedProject projectId userId s =
     (case first (filter (\<lambda>p. p_id p = projectId \<and> p_userId p = userId) (ScreenshotProjects s)) of
        None \<Rightarrow> Inl (ActionError NOT_FOUND ''Project not found.'')
      | Some project \<Rightarrow> Inr project)"

definition getOwnedScreenshot :: "string \<Rightarrow> string \<Rightarrow> store \<Rightarrow> error + screenshot" where
  "getOwnedScreenshot screenshotId userId s =
     (case first (filter (\<lambda>r. s_id r = screenshotId \<and> s_userId r = userId) (Screenshots s)) of
        None \<Rightarrow> Inl (ActionError NOT_FOUND ''Screenshot not found.'')
      | Some shot \<Rightarrow> Inr shot)"

text \<open>
  \<^verbatim>\<open>if (input.projectId)\<close>: \<^verbatim>\<open>undefined\<close> is falsy, and a string is truthy
  when it is not empty.
\<close>

definition truthy :: "string \<Rightarrow> bool" where
  "truthy x = (x \<noteq> [])"

text \<open>
  \<^verbatim>\<open>await getOwnedProject(...)\<close> as a statement: the error propagates, the row is
  dropped.
\<close>

definition discard :: "error + 'a \<Rightarrow> error + unit" where
  "discard r = (case r of Inl err \<Rightarrow> Inl err | Inr x \<Rightarrow> Inr ())"

subsection \<open>The handlers\<close>

definition createProject_handler ::
  "createProject_input \<Rightarrow> api_context \<Rightarrow> env \<Rightarrow> store \<Rightarrow> result" where
  "createProject_handler input ctx e s =
     (case requireUser ctx of
        Inl err \<Rightarrow> (Inl err, s)
      | Inr u \<Rightarrow>
          (case insertProject
                  \<lparr>p_id = randomUUID e, p_userId = user_id u,
                   p_title = cp_title input, p_description = cp_description input,
                   p_sourceDevice = cp_sourceDevice input, p_sourceApp = cp_sourceApp input,
                   p_createdAt = now e, p_updatedAt = now e\<rparr> s of
             Inl err \<Rightarrow> (Inl err, s)
           | Inr (rows, s') \<Rightarrow> (Inr (Response True (ProjectData (first rows))), s')))"

definition updateProject_handler ::
  "updateProject_input \<Rightarrow> api_context \<Rightarrow> env \<Rightarrow> store \<Rightarrow> result" where
  "updateProject_handler input ctx e s =
     (case requireUser ctx of
        Inl err \<Rightarrow> (Inl err, s)
      | Inr u \<Rightarrow>
          (case getOwnedProject (up_id input) (user_id u) s of
             Inl err \<Rightarrow> (Inl err, s)
           | Inr owned \<Rightarrow>
               (case updateProjects
                       \<lparr>set_title = up_title input, set_description = up_description input,
                        set_sourceDevice = up_sourceDevice input,
                        set_sourceApp = up_sourceApp input, set_p_updatedAt = now e\<rparr>
                       (up_id input) s of
                  Inl err \<Rightarrow> (Inl err, s)
                | Inr (rows, s') \<Rightarrow> (Inr (Response True (ProjectData (first rows))), s'))))"

definition listProjects_handler ::
  "unit option \<Rightarrow> api_context \<Rightarrow> env \<Rightarrow> store \<Rightarrow> result" where
  "listProjects_handler input ctx e s =
     (case requireUser ctx of
        Inl err \<Rightarrow> (Inl err, s)
      | Inr u \<Rightarrow>
          (let projects = filter (\<lambda>p. p_userId p = user_id u) (ScreenshotProjects s)
           in (Inr (Response True (ProjectItems projects (length projects))), s)))"

definition createScreenshot_handler ::
  "createScreenshot_input \<Rightarrow> api_context \<Rightarrow> env \<Rightarrow> store \<Rightarrow> result" where
  "createScreenshot_handler input ctx e s =
     (case requireUser ctx of
        Inl err \<Rightarrow> (Inl err, s)
      | Inr u \<Rightarrow>
          (case (case cs_projectId input of
                   None \<Rightarrow> Inr ()
                 | Some pid \<Rightarrow>
                     if truthy pid then discard (getOwnedProject pid (user_id u) s) else Inr ()) of
             Inl err \<Rightarrow> (Inl err, s)
           | Inr ok \<Rightarrow>
               (case insertScreenshot
                       \<lparr>s_id = randomUUID e, s_projectId = cs_projectId input,
                        s_userId = user_id u,
                        s_originalImageUrl = cs_originalImageUrl input,
                        s_editedImageUrl = cs_editedImageUrl input,
                        s_width = cs_width input, s_height = cs_height input,
                        s_createdAt = now e, s_updatedAt = now e\<rparr> s of
                  Inl err \<Rightarrow> (Inl err, s)
                | Inr (rows, s') \<Rightarrow> (Inr (Response True (ScreenshotData (first rows))), s'))))"

text \<open>
  \<^verbatim>\<open>updateScreenshot\<close> looks the screenshot up inline, with the query and the error
  of \<^verbatim>\<open>getOwnedScreenshot\<close>. Its test of \<^verbatim>\<open>projectId\<close> is
  \<^verbatim>\<open>!== undefined && !== null\<close>, which the empty string passes.
\<close>

definition updateScreenshot_handler ::
  "updateScreenshot_input \<Rightarrow> api_context \<Rightarrow> env \<Rightarrow> store \<Rightarrow> result" where
  "updateScreenshot_handler input ctx e s =
     (case requireUser ctx of
        Inl err \<Rightarrow> (Inl err, s)
      | Inr u \<Rightarrow>
          (case first (filter (\<lambda>r. s_id r = us_id input \<and> s_userId r = user_id u) (Screenshots s)) of
             None \<Rightarrow> (Inl (ActionError NOT_FOUND ''Screenshot not found.''), s)
           | Some existing \<Rightarrow>
               (case (case us_projectId input of
                        None \<Rightarrow> Inr ()
                      | Some pid \<Rightarrow> discard (getOwnedProject pid (user_id u) s)) of
                  Inl err \<Rightarrow> (Inl err, s)
                | Inr ok \<Rightarrow>
                    (case updateScreenshots
                            \<lparr>set_projectId = us_projectId input,
                             set_editedImageUrl = us_editedImageUrl input,
                             set_width = us_width input, set_height = us_height input,
                             set_s_updatedAt = now e\<rparr>
                            (us_id input) s of
                       Inl err \<Rightarrow> (Inl err, s)
                     | Inr (rows, s') \<Rightarrow>
                         (Inr (Response True (ScreenshotData (first rows))), s')))))"

text \<open>
  \<^verbatim>\<open>listScreenshots\<close>: the filter list starts with the owner condition; the project
  condition is pushed under the same truthiness test as the ownership check.
\<close>

definition listScreenshots_handler ::
  "listScreenshots_input \<Rightarrow> api_context \<Rightarrow> env \<Rightarrow> store \<Rightarrow> result" where
  "listScreenshots_handler input ctx e s =
     (case requireUser ctx of
        Inl err \<Rightarrow> (Inl err, s)
      | Inr u \<Rightarrow>
          (case (case ls_projectId input of
                   None \<Rightarrow> Inr ()
                 | Some pid \<Rightarrow>
                     if truthy pid then discard (getOwnedProject pid (user_id u) s) else Inr ()) of
             Inl err \<Rightarrow> (Inl err, s)
           | Inr ok \<Rightarrow>
               (let filters = [\<lambda>r. s_userId r = user_id u]
                      @ (case ls_projectId input of
                           None \<Rightarrow> []
                         | Some pid \<Rightarrow> if truthy pid then [\<lambda>r. s_projectId r = Some pid] else []);
                    screenshots = filter (\<lambda>r. list_all (\<lambda>f. f r) filters) (Screenshots s)
                in (Inr (Response True (ScreenshotItems screenshots (length screenshots))), s))))"

definition createScreenshotEdit_handler ::
  "createScreenshotEdit_input \<Rightarrow> api_context \<Rightarrow> env \<Rightarrow> store \<Rightarrow> result" where
  "createScreenshotEdit_handler input ctx e s =
     (case requireUser ctx of
        Inl err \<Rightarrow> (Inl err, s)
      | Inr u \<Rightarrow>
          (case getOwnedScreenshot (ce_screenshotId input) (user_id u) s of
             Inl err \<Rightarrow> (Inl err, s)
           | Inr owned \<Rightarrow>
               (case insertEdit
                       \<lparr>e_id = randomUUID e, e_screenshotId = ce_screenshotId input,
                        e_userId = user_id u, e_editType = ce_editType input,
                        e_operationsJson = ce_operationsJson input,
                        e_resultImageUrl = ce_resultImageUrl input,
                        e_createdAt = now e\<rparr> s of
                  Inl err \<Rightarrow> (Inl err, s)
                | Inr (rows, s') \<Rightarrow> (Inr (Response True (EditData (first rows))), s'))))"

text \<open>
  \<^verbatim>\<open>listScreenshotEdits\<close>: after the ownership check of the screenshot, the edits
  are selected by \<^verbatim>\<open>screenshotId\<close> alone.
\<close>

definition listScreenshotEdits_handler ::
  "listScreenshotEdits_input \<Rightarrow> api_context \<Rightarrow> env \<Rightarrow> store \<Rightarrow> result" where
  "listScreenshotEdits_handler input ctx e s =
     (case requireUser ctx of
        Inl err \<Rightarrow> (Inl err, s)
      | Inr u \<Rightarrow>
          (case getOwnedScreenshot (le_screenshotId input) (user_id u) s of
             Inl err \<Rightarrow> (Inl err, s)
           | Inr owned \<Rightarrow>
               (let edits = filter (\<lambda>d. e_screenshotId d = le_screenshotId input) (ScreenshotEdits s)
                in (Inr (Response True (EditItems edits (length edits))), s))))"

subsection \<open>The exported \<^verbatim>\<open>server\<close> object\<close>

datatype action =
    CreateProject
  | UpdateProject
  | ListProjects
  | CreateScreenshot
  | UpdateScreenshot
  | ListScreenshots
  | CreateScreenshotEdit
  | ListScreenshotEdits

fun server :: "action \<Rightarrow> jvalue \<Rightarrow> api_context \<Rightarrow> env \<Rightarrow> store \<Rightarrow> result" where
  "server CreateProject = defineAction createProject_schema createProject_handler"
| "server UpdateProject = defineAction updateProject_schema updateProject_handler"
| "server ListProjects = defineAction listProjects_schema listProjects_handler"
| "server CreateScreenshot = defineAction createScreenshot_schema createScreenshot_handler"
| "server UpdateScreenshot = defineAction updateScreenshot_schema updateScreenshot_handler"
| "server ListScreenshots = defineAction listScreenshots_schema listScreenshots_handler"
| "server CreateScreenshotEdit =
     defineAction createScreenshotEdit_schema createScreenshotEdit_handler"
| "server ListScreenshotEdits =
     defineAction listScreenshotEdits_schema listScreenshotEdits_handler"

text \<open>The issues the schema of an action raises on a raw input; none when it parses.\<close>

fun inputIssues :: "action \<Rightarrow> jvalue \<Rightarrow> issue list" where
  "inputIssues CreateProject raw = (case createProject_schema raw of Inl i \<Rightarrow> i | Inr x \<Rightarrow> [])"
| "inputIssues UpdateProject raw = (case updateProject_schema raw of Inl i \<Rightarrow> i | Inr x \<Rightarrow> [])"
| "inputIssues ListProjects raw = (case listProjects_schema raw of Inl i \<Rightarrow> i | Inr x \<Rightarrow> [])"
| "inputIssues CreateScreenshot raw =
     (case createScreenshot_schema raw of Inl i \<Rightarrow> i | Inr x \<Rightarrow> [])"
| "inputIssues UpdateScreenshot raw =
     (case updateScreenshot_schema raw of Inl i \<Rightarrow> i | Inr x \<Rightarrow> [])"
| "inputIssues ListScreenshots raw =
     (case listScreenshots_schema raw of Inl i \<Rightarrow> i | Inr x \<Rightarrow> [])"
| "inputIssues CreateScreenshotEdit raw =
     (case createScreenshotEdit_schema raw of Inl i \<Rightarrow> i | Inr x \<Rightarrow> [])"
| "inputIssues ListScreenshotEdits raw =
     (case listScreenshotEdits_schema raw of Inl i \<Rightarrow> i | Inr x \<Rightarrow> [])"

subsection \<open>Reachable stores\<close>

text \<open>
  One call of an action, by any caller, with any raw input, at any time, takes the store
  to the store the action leaves behind. A store is reachable when it comes from an empty
  database by such calls, each of them drawing its identifier from
  \<^verbatim>\<open>crypto.randomUUID()\<close>. Calls are taken one at a time: each runs to its end
  before the next one starts. The clock is not constrained.
\<close>

inductive step :: "store \<Rightarrow> store \<Rightarrow> bool" where
  call: "isUUID (randomUUID e) \<Longrightarrow> step s (snd (server a raw ctx e s))"

inductive reachable :: "store \<Rightarrow> bool" where
  initial: "reachable (emptyStore fk)"
| after: "reachable s \<Longrightarrow> step s s' \<Longrightarrow> reachable s'"

subsection \<open>Properties of a store\<close>

text \<open>The primary keys: no two rows of a table share an id.\<close>

definition uniqueKeys :: "store \<Rightarrow> bool" where
  "uniqueKeys s =
     (distinct (map p_id (ScreenshotProjects s)) \<and> distinct (map s_id (Screenshots s))
      \<and> distinct (map e_id (ScreenshotEdits s)))"


text \<open>Every edit points at a screenshot of the store that has the edit's owner.\<close>

definition editsOwned :: "store \<Rightarrow> bool" where
  "editsOwned s =
     (\<forall>d \<in> set (ScreenshotEdits s).
        \<exists>r \<in> set (Screenshots s). s_id r = e_screenshotId d \<and> s_userId r = e_userId d)"

text \<open>
  Every screenshot with a non-empty \<^verbatim>\<open>projectId\<close> points at a project of the store
  that has the screenshot's owner.
\<close>

definition projectsOwned :: "store \<Rightarrow> bool" where
  "projectsOwned s =
     (\<forall>r \<in> set (Screenshots s). \<forall>pid. s_projectId r = Some pid \<longrightarrow> pid \<noteq> [] \<longrightarrow>
        (\<exists>p \<in> set (ScreenshotProjects s). p_id p = pid \<and> p_userId p = s_userId r))"

text \<open>A context carries an authenticated user when \<^verbatim>\<open>locals?.user\<close> is defined.\<close>

definition authenticated :: "api_context \<Rightarrow> bool" where
  "authenticated ctx = (case locals ctx of None \<Rightarrow> False | Some l \<Rightarrow> user l \<noteq> None)"

subsection \<open>Example data\<close>

text \<open>
  Two users, four identifiers, and a short history: Alice creates a project, a screenshot
  in it and an edit of the screenshot; then Bob creates a project of his own.
\<close>

definition uuid1 :: string where "uuid1 = ''00000000-0000-4000-8000-000000000001''"
definition uuid2 :: string where "uuid2 = ''00000000-0000-4000-8000-000000000002''"
definition uuid3 :: string where "uuid3 = ''00000000-0000-4000-8000-000000000003''"
definition uuid4 :: string where "uuid4 = ''00000000-0000-4000-8000-000000000004''"
definition uuid5 :: string where "uuid5 = ''00000000-0000-4000-8000-000000000005''"

definition alice :: app_user where "alice = \<lparr>user_id = ''alice''\<rparr>"
definition bob :: app_user where "bob = \<lparr>user_id = ''bob''\<rparr>"

definition signedIn :: "app_user \<Rightarrow> api_context" where
  "signedIn u = \<lparr>locals = Some \<lparr>user = Some u\<rparr>\<rparr>"

definition anonymous :: api_context where
  "anonymous = \<lparr>locals = Some \<lparr>user = None\<rparr>\<rparr>"

definition reading :: "string \<Rightarrow> date \<Rightarrow> env" where
  "reading uuid t = \<lparr>randomUUID = uuid, now = t\<rparr>"

definition store1 :: store where
  "store1 = snd (server CreateProject (JObj [(''title'', JStr ''Bug report'')])
                  (signedIn alice) (reading uuid1 100) (emptyStore False))"

definition store2 :: store where
  "store2 = snd (server CreateScreenshot
                  (JObj [(''projectId'', JStr uuid1), (''originalImageUrl'', JStr ''img://1'')])
                  (signedIn alice) (reading uuid2 200) store1)"

definition store3 :: store where
  "store3 = snd (server CreateScreenshotEdit
                  (JObj [(''screenshotId'', JStr uuid2), (''editType'', JStr ''crop'')])
                  (signedIn alice) (reading uuid3 300) store2)"

definition store4 :: store where
  "store4 = snd (server CreateProject (JObj [(''title'', JStr ''Other'')])
                  (signedIn bob) (reading uuid4 400) store3)"

definition project1 :: project where
  "project1 = \<lparr>p_id = uuid1, p_userId = ''alice'', p_title = Some ''Bug report'',
      p_description = None, p_sourceDevice = None, p_sourceApp = None,
      p_createdAt = 100, p_updatedAt = 100\<rparr>"

definition screenshot2 :: screenshot where
  "screenshot2 = \<lparr>s_id = uuid2, s_projectId = Some uuid1, s_userId = ''alice'',
      s_originalImageUrl = ''img://1'', s_editedImageUrl = None, s_width = None,
      s_height = None, s_createdAt = 200, s_updatedAt = 200\<rparr>"

definition edit3 :: edit where
  "edit3 = \<lparr>e_id = uuid3, e_screenshotId = uuid2, e_userId = ''alice'',
      e_editType = Some ''crop'', e_operationsJson = None, e_resultImageUrl = None,
      e_createdAt = 300\<rparr>"

definition project4 :: project where
  "project4 = \<lparr>p_id = uuid4, p_userId = ''bob'', p_title = Some ''Other'',
      p_description = None, p_sourceDevice = None, p_sourceApp = None,
      p_createdAt = 400, p_updatedAt = 400\<rparr>"

section \<open>Lemmas\<close>

subsection \<open>What one call does to the store\<close>

lemma first_filter_Some:
  "first (filter P xs) = Some x \<Longrightarrow> x \<in> set xs \<and> P x"
  by (induction xs) (auto split: if_splits)

lemma first_filter_None:
  "first (filter P xs) = None \<longleftrightarrow> (\<forall>x \<in> set xs. \<not> P x)"
  by (induction xs) auto


lemma createProject_effect:
  "createProject_handler i ctx e s = (r, s') \<Longrightarrow> isUUID (randomUUID e) \<Longrightarrow>
     s' = s
     \<or> (\<exists>row. isUUID (p_id row) \<and> p_id row \<notin> set (map p_id (ScreenshotProjects s))
           \<and> ScreenshotProjects s' = ScreenshotProjects s @ [row]
           \<and> Screenshots s' = Screenshots s \<and> ScreenshotEdits s' = ScreenshotEdits s
           \<and> foreignKeys s' = foreignKeys s)"
  by (auto simp: createProject_handler_def insertProject_def split: sum.splits if_splits)

lemma updateProject_effect:
  "updateProject_handler i ctx e s = (r, s') \<Longrightarrow>
     s' = s
     \<or> (\<exists>c pid. ScreenshotProjects s' =
             map (\<lambda>p. if p_id p = pid then applyProjectSet c p else p) (ScreenshotProjects s)
           \<and> Screenshots s' = Screenshots s \<and> ScreenshotEdits s' = ScreenshotEdits s
           \<and> foreignKeys s' = foreignKeys s)"
  by (clarsimp simp: updateProject_handler_def updateProjects_def simp del: map_eq_conv
      split: sum.splits if_splits) blast

lemma listProjects_effect: "listProjects_handler i ctx e s = (r, s') \<Longrightarrow> s' = s"
  by (auto simp: listProjects_handler_def Let_def split: sum.splits)

lemma createScreenshot_effect:
  "createScreenshot_handler i ctx e s = (r, s') \<Longrightarrow> isUUID (randomUUID e) \<Longrightarrow>
     s' = s
     \<or> (\<exists>row. isUUID (s_id row) \<and> s_id row \<notin> set (map s_id (Screenshots s))
           \<and> (\<forall>pid. s_projectId row = Some pid \<longrightarrow> pid \<noteq> [] \<longrightarrow>
                 (\<exists>p \<in> set (ScreenshotProjects s). p_id p = pid \<and> p_userId p = s_userId row))
           \<and> Screenshots s' = Screenshots s @ [row]
           \<and> ScreenshotProjects s' = ScreenshotProjects s
           \<and> ScreenshotEdits s' = ScreenshotEdits s \<and> foreignKeys s' = foreignKeys s)"
  by (auto simp: createScreenshot_handler_def insertScreenshot_def getOwnedProject_def
      truthy_def discard_def split: sum.splits if_splits option.splits dest!: first_filter_Some)

lemma updateScreenshot_effect:
  "updateScreenshot_handler i ctx e s = (r, s') \<Longrightarrow>
     s' = s
     \<or> (\<exists>c sid old. old \<in> set (Screenshots s) \<and> s_id old = sid
           \<and> (\<forall>pid. set_projectId c = Some pid \<longrightarrow>
                 (\<exists>p \<in> set (ScreenshotProjects s). p_id p = pid \<and> p_userId p = s_userId old))
           \<and> Screenshots s' =
             map (\<lambda>r. if s_id r = sid then applyScreenshotSet c r else r) (Screenshots s)
           \<and> ScreenshotProjects s' = ScreenshotProjects s
           \<and> ScreenshotEdits s' = ScreenshotEdits s \<and> foreignKeys s' = foreignKeys s)"
proof -
  assume run: "updateScreenshot_handler i ctx e s = (r, s')"
  show ?thesis
  proof (cases "s' = s")
    case True
    then show ?thesis by simp
  next
    case False
    with run obtain u where u: "requireUser ctx = Inr u"
      by (auto simp: updateScreenshot_handler_def split: sum.splits)
    with run False obtain old where
      old: "first (filter (\<lambda>r. s_id r = us_id i \<and> s_userId r = user_id u) (Screenshots s))
              = Some old"
      by (auto simp: updateScreenshot_handler_def split: option.splits)
    then have mem: "old \<in> set (Screenshots s)" "s_id old = us_id i" "s_userId old = user_id u"
      by (auto dest: first_filter_Some)
    let ?c = "\<lparr>set_projectId = us_projectId i, set_editedImageUrl = us_editedImageUrl i,
               set_width = us_width i, set_height = us_height i, set_s_updatedAt = now e\<rparr>"
    have chk: "\<forall>pid. set_projectId ?c = Some pid \<longrightarrow>
        (\<exists>p \<in> set (ScreenshotProjects s). p_id p = pid \<and> p_userId p = s_userId old)"
      using run False u old mem(3)
      by (auto simp: updateScreenshot_handler_def getOwnedProject_def discard_def
          split: sum.splits option.splits dest!: first_filter_Some)
    have "Screenshots s' =
             map (\<lambda>r. if s_id r = us_id i then applyScreenshotSet ?c r else r) (Screenshots s)"
      and "ScreenshotProjects s' = ScreenshotProjects s"
      and "ScreenshotEdits s' = ScreenshotEdits s" and "foreignKeys s' = foreignKeys s"
      using run False u old
      by (auto simp: updateScreenshot_handler_def updateScreenshots_def
          split: sum.splits option.splits if_splits)
    with mem chk show ?thesis by blast
  qed
qed

lemma listScreenshots_effect: "listScreenshots_handler i ctx e s = (r, s') \<Longrightarrow> s' = s"
  by (auto simp: listScreenshots_handler_def Let_def split: sum.splits option.splits if_splits)

lemma createScreenshotEdit_effect:
  "createScreenshotEdit_handler i ctx e s = (r, s') \<Longrightarrow> isUUID (randomUUID e) \<Longrightarrow>
     s' = s
     \<or> (\<exists>row. isUUID (e_id row) \<and> e_id row \<notin> set (map e_id (ScreenshotEdits s))
           \<and> (\<exists>r \<in> set (Screenshots s).
                  s_id r = e_screenshotId row \<and> s_userId r = e_userId row)
           \<and> ScreenshotEdits s' = ScreenshotEdits s @ [row]
           \<and> ScreenshotProjects s' = ScreenshotProjects s \<and> Screenshots s' = Screenshots s
           \<and> foreignKeys s' = foreignKeys s)"
  by (auto simp: createScreenshotEdit_handler_def insertEdit_def getOwnedScreenshot_def
      split: sum.splits if_splits option.splits dest!: first_filter_Some)

lemma listScreenshotEdits_effect: "listScreenshotEdits_handler i ctx e s = (r, s') \<Longrightarrow> s' = s"
  by (auto simp: listScreenshotEdits_handler_def Let_def split: sum.splits option.splits if_splits)

lemma defineAction_cases:
  "defineAction sch h raw ctx e s = (r, s') \<Longrightarrow>
     s' = s \<or> (\<exists>i. sch raw = Inr i \<and> h i ctx e s = (r, s'))"
  by (auto simp: defineAction_def split: sum.splits)

lemma step_effect:
  assumes "step s s'"
  obtains
    (unchanged) "s' = s"
  | (project_inserted) row where
      "isUUID (p_id row)" "p_id row \<notin> set (map p_id (ScreenshotProjects s))"
      "ScreenshotProjects s' = ScreenshotProjects s @ [row]"
      "Screenshots s' = Screenshots s" "ScreenshotEdits s' = ScreenshotEdits s"
      "foreignKeys s' = foreignKeys s"
  | (project_updated) c pid where
      "ScreenshotProjects s' =
         map (\<lambda>p. if p_id p = pid then applyProjectSet c p else p) (ScreenshotProjects s)"
      "Screenshots s' = Screenshots s" "ScreenshotEdits s' = ScreenshotEdits s"
      "foreignKeys s' = foreignKeys s"
  | (screenshot_inserted) row where
      "isUUID (s_id row)" "s_id row \<notin> set (map s_id (Screenshots s))"
      "\<forall>pid. s_projectId row = Some pid \<longrightarrow> pid \<noteq> [] \<longrightarrow>
         (\<exists>p \<in> set (ScreenshotProjects s). p_id p = pid \<and> p_userId p = s_userId row)"
      "Screenshots s' = Screenshots s @ [row]"
      "ScreenshotProjects s' = ScreenshotProjects s" "ScreenshotEdits s' = ScreenshotEdits s"
      "foreignKeys s' = foreignKeys s"
  | (screenshot_updated) c sid old where
      "old \<in> set (Screenshots s)" "s_id old = sid"
      "\<forall>pid. set_projectId c = Some pid \<longrightarrow>
         (\<exists>p \<in> set (ScreenshotProjects s). p_id p = pid \<and> p_userId p = s_userId old)"
      "Screenshots s' =
         map (\<lambda>r. if s_id r = sid then applyScreenshotSet c r else r) (Screenshots s)"
      "ScreenshotProjects s' = ScreenshotProjects s" "ScreenshotEdits s' = ScreenshotEdits s"
      "foreignKeys s' = foreignKeys s"
  | (edit_inserted) row where
      "isUUID (e_id row)" "e_id row \<notin> set (map e_id (ScreenshotEdits s))"
      "\<exists>r \<in> set (Screenshots s). s_id r = e_screenshotId row \<and> s_userId r = e_userId row"
      "ScreenshotEdits s' = ScreenshotEdits s @ [row]"
      "ScreenshotProjects s' = ScreenshotProjects s" "Screenshots s' = Screenshots s"
      "foreignKeys s' = foreignKeys s"
proof -
  from assms obtain e a raw ctx where
    uuid: "isUUID (randomUUID e)" and s': "s' = snd (server a raw ctx e s)"
    by (auto elim: step.cases)
  obtain r where run: "server a raw ctx e s = (r, s')"
    using s' by (cases "server a raw ctx e s") simp
  show thesis
  proof (cases a)
    case CreateProject
    with run defineAction_cases [of createProject_schema createProject_handler raw ctx e s r s']
    consider "s' = s" | i where "createProject_handler i ctx e s = (r, s')" by auto
    then show ?thesis
    proof cases
      case 1 then show ?thesis by (rule unchanged)
    next
      case 2
      from createProject_effect [OF 2 uuid] show ?thesis
        by (elim disjE exE conjE) (rule unchanged, assumption, rule project_inserted, assumption+)
    qed
  next
    case UpdateProject
    with run defineAction_cases [of updateProject_schema updateProject_handler raw ctx e s r s']
    consider "s' = s" | i where "updateProject_handler i ctx e s = (r, s')" by auto
    then show ?thesis
    proof cases
      case 1 then show ?thesis by (rule unchanged)
    next
      case 2
      from updateProject_effect [OF 2] show ?thesis
        by (elim disjE exE conjE) (rule unchanged, assumption, rule project_updated, assumption+)
    qed
  next
    case ListProjects
    with run defineAction_cases [of listProjects_schema listProjects_handler raw ctx e s r s']
    have "s' = s" by (auto dest: listProjects_effect)
    then show ?thesis by (rule unchanged)
  next
    case CreateScreenshot
    with run defineAction_cases [of createScreenshot_schema createScreenshot_handler raw ctx e s r s']
    consider "s' = s" | i where "createScreenshot_handler i ctx e s = (r, s')" by auto
    then show ?thesis
    proof cases
      case 1 then show ?thesis by (rule unchanged)
    next
      case 2
      from createScreenshot_effect [OF 2 uuid] show ?thesis
        by (elim disjE exE conjE) (rule unchanged, assumption, rule screenshot_inserted, assumption+)
    qed
  next
    case UpdateScreenshot
    with run defineAction_cases [of updateScreenshot_schema updateScreenshot_handler raw ctx e s r s']
    consider "s' = s" | i where "updateScreenshot_handler i ctx e s = (r, s')" by auto
    then show ?thesis
    proof cases
      case 1 then show ?thesis by (rule unchanged)
    next
      case 2
      from updateScreenshot_effect [OF 2] show ?thesis
        by (elim disjE exE conjE) (rule unchanged, assumption, rule screenshot_updated, assumption+)
    qed
  next
    case ListScreenshots
    with run defineAction_cases [of listScreenshots_schema listScreenshots_handler raw ctx e s r s']
    have "s' = s" by (auto dest: listScreenshots_effect)
    then show ?thesis by (rule unchanged)
  next
    case CreateScreenshotEdit
    with run defineAction_cases
      [of createScreenshotEdit_schema createScreenshotEdit_handler raw ctx e s r s']
    consider "s' = s" | i where "createScreenshotEdit_handler i ctx e s = (r, s')" by auto
    then show ?thesis
    proof cases
      case 1 then show ?thesis by (rule unchanged)
    next
      case 2
      from createScreenshotEdit_effect [OF 2 uuid] show ?thesis
        by (elim disjE exE conjE) (rule unchanged, assumption, rule edit_inserted, assumption+)
    qed
  next
    case ListScreenshotEdits
    with run defineAction_cases
      [of listScreenshotEdits_schema listScreenshotEdits_handler raw ctx e s r s']
    have "s' = s" by (auto dest: listScreenshotEdits_effect)
    then show ?thesis by (rule unchanged)
  qed
qed

lemma p_id_applyProjectSet [simp]: "p_id (applyProjectSet c p) = p_id p"
  by (simp add: applyProjectSet_def)

lemma p_userId_applyProjectSet [simp]: "p_userId (applyProjectSet c p) = p_userId p"
  by (simp add: applyProjectSet_def)

lemma s_id_applyScreenshotSet [simp]: "s_id (applyScreenshotSet c r) = s_id r"
  by (simp add: applyScreenshotSet_def)

lemma s_userId_applyScreenshotSet [simp]: "s_userId (applyScreenshotSet c r) = s_userId r"
  by (simp add: applyScreenshotSet_def)

lemma map_p_id_update:
  "p_id \<circ> (\<lambda>p. if p_id p = pid then applyProjectSet c p else p) = p_id"
  by (auto simp: fun_eq_iff)

lemma map_s_id_update:
  "s_id \<circ> (\<lambda>r. if s_id r = sid then applyScreenshotSet c r else r) = s_id"
  by (auto simp: fun_eq_iff)


lemma unique_screenshot:
  "uniqueKeys s \<Longrightarrow> r \<in> set (Screenshots s) \<Longrightarrow> r' \<in> set (Screenshots s)
     \<Longrightarrow> s_id r = s_id r' \<Longrightarrow> r = r'"
  unfolding uniqueKeys_def distinct_map by (blast dest: inj_onD)

lemma step_uniqueKeys: "step s s' \<Longrightarrow> uniqueKeys s \<Longrightarrow> uniqueKeys s'"
  by (erule step_effect) (auto simp: uniqueKeys_def map_p_id_update map_s_id_update)


lemma step_editsOwned: "step s s' \<Longrightarrow> editsOwned s \<Longrightarrow> editsOwned s'"
proof (erule step_effect)
  fix c sid and old :: screenshot
  assume inv: "editsOwned s"
    and upd: "Screenshots s' =
         map (\<lambda>r. if s_id r = sid then applyScreenshotSet c r else r) (Screenshots s)"
    and same: "ScreenshotEdits s' = ScreenshotEdits s"
  show "editsOwned s'"
    unfolding editsOwned_def
  proof
    fix d assume "d \<in> set (ScreenshotEdits s')"
    with inv same obtain r where r: "r \<in> set (Screenshots s)"
      "s_id r = e_screenshotId d" "s_userId r = e_userId d"
      by (auto simp: editsOwned_def)
    let ?r' = "if s_id r = sid then applyScreenshotSet c r else r"
    have "?r' \<in> set (Screenshots s')" using r(1) upd by auto
    moreover have "s_id ?r' = e_screenshotId d" "s_userId ?r' = e_userId d" using r by auto
    ultimately show "\<exists>r\<in>set (Screenshots s'). s_id r = e_screenshotId d \<and> s_userId r = e_userId d"
      by blast
  qed
qed (auto simp: editsOwned_def)

lemma reachable_uniqueKeys: "reachable s \<Longrightarrow> uniqueKeys s"
  by (induction rule: reachable.induct) (auto simp: uniqueKeys_def emptyStore_def dest: step_uniqueKeys)


lemma reachable_editsOwned: "reachable s \<Longrightarrow> editsOwned s"
  by (induction rule: reachable.induct) (auto simp: editsOwned_def emptyStore_def dest: step_editsOwned)

lemma s_projectId_applyScreenshotSet:
  "s_projectId (applyScreenshotSet c r)
     = (case set_projectId c of None \<Rightarrow> s_projectId r | Some v \<Rightarrow> Some v)"
  by (simp add: applyScreenshotSet_def)

lemma step_projectsOwned:
  assumes "step s s'" and inv: "projectsOwned s" and uniq: "uniqueKeys s"
  shows "projectsOwned s'"
  using assms(1)
proof (cases rule: step_effect)
  case unchanged
  with inv show ?thesis by simp
next
  case (project_inserted row)
  with inv show ?thesis by (fastforce simp: projectsOwned_def)
next
  case (project_updated c pid)
  show ?thesis
    unfolding projectsOwned_def
  proof (intro ballI allI impI)
    fix r qid assume "r \<in> set (Screenshots s')" "s_projectId r = Some qid" "qid \<noteq> []"
    with inv project_updated obtain p where p: "p \<in> set (ScreenshotProjects s)"
      "p_id p = qid" "p_userId p = s_userId r"
      by (auto simp: projectsOwned_def)
    let ?p' = "if p_id p = pid then applyProjectSet c p else p"
    have "?p' \<in> set (ScreenshotProjects s')" using p(1) project_updated(1) by auto
    moreover have "p_id ?p' = qid" "p_userId ?p' = s_userId r" using p by auto
    ultimately show "\<exists>p \<in> set (ScreenshotProjects s'). p_id p = qid \<and> p_userId p = s_userId r"
      by blast
  qed
next
  case (screenshot_inserted row)
  with inv show ?thesis by (auto simp: projectsOwned_def)
next
  case (screenshot_updated c sid old)
  show ?thesis
    unfolding projectsOwned_def
  proof (intro ballI allI impI)
    fix r' qid assume r': "r' \<in> set (Screenshots s')" "s_projectId r' = Some qid" "qid \<noteq> []"
    from r'(1) screenshot_updated(4) obtain r where r: "r \<in> set (Screenshots s)"
      "r' = (if s_id r = sid then applyScreenshotSet c r else r)"
      by auto
    show "\<exists>p \<in> set (ScreenshotProjects s'). p_id p = qid \<and> p_userId p = s_userId r'"
    proof (cases "s_id r = sid \<and> set_projectId c \<noteq> None")
      case True
      with unique_screenshot [OF uniq r(1) screenshot_updated(1)] screenshot_updated(2)
      have "r = old" by simp
      with True r(2) r'(2) screenshot_updated(3,5) show ?thesis
        by (auto simp: s_projectId_applyScreenshotSet)
    next
      case False
      with r r'(2) have "s_projectId r = Some qid" "s_userId r' = s_userId r"
        by (auto simp: s_projectId_applyScreenshotSet split: if_splits)
      with inv r(1) r'(3) screenshot_updated(5) show ?thesis
        by (auto simp: projectsOwned_def)
    qed
  qed
next
  case (edit_inserted row)
  with inv show ?thesis by (simp add: projectsOwned_def)
qed

lemma reachable_projectsOwned: "reachable s \<Longrightarrow> projectsOwned s"
proof (induction rule: reachable.induct)
  case (initial fk)
  show ?case by (simp add: projectsOwned_def emptyStore_def)
next
  case (after s s')
  from step_projectsOwned [OF after.hyps(2) after.IH reachable_uniqueKeys [OF after.hyps(1)]]
  show ?case .
qed

lemma owned_screenshot_edits:
  assumes "editsOwned s" "uniqueKeys s"
    and "getOwnedScreenshot sid uid s = Inr shot"
    and "d \<in> set (ScreenshotEdits s)" "e_screenshotId d = sid"
  shows "e_userId d = uid"
proof -
  from assms(3) have shot: "shot \<in> set (Screenshots s)" "s_id shot = sid" "s_userId shot = uid"
    by (auto simp: getOwnedScreenshot_def split: option.splits dest: first_filter_Some)
  from assms(1,4,5) obtain r where r: "r \<in> set (Screenshots s)" "s_id r = sid"
    "s_userId r = e_userId d"
    by (auto simp: editsOwned_def)
  from unique_screenshot [OF assms(2) r(1) shot(1)] r(2) shot(2) have "r = shot" by simp
  with r shot show ?thesis by simp
qed

subsection \<open>The example history\<close>

lemmas example_defs = uuid1_def uuid2_def uuid3_def uuid4_def uuid5_def alice_def bob_def
  signedIn_def anonymous_def reading_def project1_def screenshot2_def edit3_def project4_def

lemmas schema_defs = createProject_schema_def updateProject_schema_def listProjects_schema_def
  createScreenshot_schema_def updateScreenshot_schema_def listScreenshots_schema_def
  createScreenshotEdit_schema_def listScreenshotEdits_schema_def
  updateProject_refine_def updateScreenshot_refine_def typeIssues_def field_def
  isString_def isOptString_def isOptNumber_def theString_def optString_def optNumber_def

lemmas handler_defs = createProject_handler_def updateProject_handler_def
  listProjects_handler_def createScreenshot_handler_def updateScreenshot_handler_def
  listScreenshots_handler_def createScreenshotEdit_handler_def listScreenshotEdits_handler_def
  requireUser_def getOwnedProject_def getOwnedScreenshot_def truthy_def discard_def
  insertProject_def insertScreenshot_def insertEdit_def updateProjects_def updateScreenshots_def
  projectExists_def applyProjectSet_def applyScreenshotSet_def

lemmas run_defs = defineAction_def schema_defs handler_defs emptyStore_def Let_def

lemma store1_eq:
  "store1 = \<lparr>ScreenshotProjects = [project1], Screenshots = [], ScreenshotEdits = [],
             foreignKeys = False\<rparr>"
  by (simp add: store1_def run_defs example_defs)

lemma store2_eq:
  "store2 = \<lparr>ScreenshotProjects = [project1], Screenshots = [screenshot2],
             ScreenshotEdits = [], foreignKeys = False\<rparr>"
  by (simp add: store2_def store1_eq run_defs example_defs)

lemma store3_eq:
  "store3 = \<lparr>ScreenshotProjects = [project1], Screenshots = [screenshot2],
             ScreenshotEdits = [edit3], foreignKeys = False\<rparr>"
  by (simp add: store3_def store2_eq run_defs example_defs)

lemma store4_eq:
  "store4 = \<lparr>ScreenshotProjects = [project1, project4], Screenshots = [screenshot2],
             ScreenshotEdits = [edit3], foreignKeys = False\<rparr>"
  by (simp add: store4_def store3_eq run_defs example_defs)

lemma isUUID_examples:
  "isUUID (randomUUID (reading uuid1 t))" "isUUID (randomUUID (reading uuid2 t))"
  "isUUID (randomUUID (reading uuid3 t))" "isUUID (randomUUID (reading uuid4 t))"
  "isUUID (randomUUID (reading uuid5 t))"
  by (simp_all add: isUUID_def example_defs)

lemma reachable_store1: "reachable store1"
  unfolding store1_def
  by (rule reachable.after [OF reachable.initial step.call]) (rule isUUID_examples)

lemma reachable_store2: "reachable store2"
  unfolding store2_def
  by (rule reachable.after [OF reachable_store1 step.call]) (rule isUUID_examples)

lemma reachable_store3: "reachable store3"
  unfolding store3_def
  by (rule reachable.after [OF reachable_store2 step.call]) (rule isUUID_examples)

lemma reachable_store4: "reachable store4"
  unfolding store4_def
  by (rule reachable.after [OF reachable_store3 step.call]) (rule isUUID_examples)

section \<open>The claims\<close>

text \<open>
  C10. In every reachable store, every row of \<^verbatim>\<open>ScreenshotEdits\<close> references a
  screenshot that exists, and its \<^verbatim>\<open>userId\<close> is the \<^verbatim>\<open>userId\<close> of that
  screenshot. Hence \<^verbatim>\<open>listScreenshotEdits\<close>, whose final query selects the edits by
  \<^verbatim>\<open>screenshotId\<close> alone, returns only edits of the caller.
\<close>

theorem edits_belong_to_their_screenshots_owner:
  "reachable s \<Longrightarrow>
     (\<forall>d \<in> set (ScreenshotEdits s).
        (\<exists>r \<in> set (Screenshots s). s_id r = e_screenshotId d)
        \<and> (\<forall>r \<in> set (Screenshots s). s_id r = e_screenshotId d \<longrightarrow> s_userId r = e_userId d))
     \<and> (\<forall>input ctx e u r s'.
          requireUser ctx = Inr u \<longrightarrow>
          listScreenshotEdits_handler input ctx e s = (Inr r, s') \<longrightarrow>
          data r = EditItems
                     (filter (\<lambda>d. e_screenshotId d = le_screenshotId input) (ScreenshotEdits s))
                     (length (filter (\<lambda>d. e_screenshotId d = le_screenshotId input)
                                (ScreenshotEdits s)))
          \<and> (\<forall>d \<in> set (filter (\<lambda>d. e_screenshotId d = le_screenshotId input)
                               (ScreenshotEdits s)). e_userId d = user_id u))"
proof (intro conjI ballI allI impI)
  assume reach: "reachable s"
  note inv = reachable_editsOwned [OF reach] and uniq = reachable_uniqueKeys [OF reach]
  {
    fix d assume d: "d \<in> set (ScreenshotEdits s)"
    from inv d obtain r0 where r0: "r0 \<in> set (Screenshots s)" "s_id r0 = e_screenshotId d"
      "s_userId r0 = e_userId d"
      by (auto simp: editsOwned_def)
    then show "\<exists>r \<in> set (Screenshots s). s_id r = e_screenshotId d" by blast
    fix r assume r: "r \<in> set (Screenshots s)" "s_id r = e_screenshotId d"
    from unique_screenshot [OF uniq r(1) r0(1)] r(2) r0(2) have "r = r0" by simp
    with r0 show "s_userId r = e_userId d" by simp
  }
  fix input ctx e u r s'
  assume u: "requireUser ctx = Inr u"
    and run: "listScreenshotEdits_handler input ctx e s = (Inr r, s')"
  from run u obtain shot where
    shot: "getOwnedScreenshot (le_screenshotId input) (user_id u) s = Inr shot"
    by (auto simp: listScreenshotEdits_handler_def split: sum.splits)
  with run u show "data r = EditItems
                     (filter (\<lambda>d. e_screenshotId d = le_screenshotId input) (ScreenshotEdits s))
                     (length (filter (\<lambda>d. e_screenshotId d = le_screenshotId input)
                                (ScreenshotEdits s)))"
    by (auto simp: listScreenshotEdits_handler_def Let_def)
  fix d assume "d \<in> set (filter (\<lambda>d. e_screenshotId d = le_screenshotId input) (ScreenshotEdits s))"
  then have "d \<in> set (ScreenshotEdits s)" "e_screenshotId d = le_screenshotId input" by auto
  with owned_screenshot_edits [OF inv uniq shot] show "e_userId d = user_id u" by blast
qed

theorem edits_belong_to_their_screenshots_owner_witness:
  "reachable store3 \<and> edit3 \<in> set (ScreenshotEdits store3)
   \<and> screenshot2 \<in> set (Screenshots store3) \<and> s_id screenshot2 = e_screenshotId edit3
   \<and> s_userId screenshot2 = e_userId edit3"
proof -
  have mem: "edit3 \<in> set (ScreenshotEdits store3)" "screenshot2 \<in> set (Screenshots store3)"
    "s_id screenshot2 = e_screenshotId edit3"
    by (simp_all add: store3_eq example_defs)
  from edits_belong_to_their_screenshots_owner [OF reachable_store3] mem
  have "s_userId screenshot2 = e_userId edit3"
    by blast
  with reachable_store3 mem show ?thesis by blast
qed

lemma step_edits: "step s s' \<Longrightarrow> \<exists>new. ScreenshotEdits s' = ScreenshotEdits s @ new"
  by (erule step_effect) auto

text \<open>
  C7. No action updates or deletes a row of \<^verbatim>\<open>ScreenshotEdits\<close>: over any sequence
  of calls the table only grows at its end, so every edit that is in the store stays in
  it, unchanged.
\<close>

theorem edits_append_only:
  "step\<^sup>*\<^sup>* s s' \<Longrightarrow>
     (\<exists>new. ScreenshotEdits s' = ScreenshotEdits s @ new)
     \<and> (\<forall>d \<in> set (ScreenshotEdits s). d \<in> set (ScreenshotEdits s'))"
proof (induction rule: rtranclp_induct)
  case base
  then show ?case by simp
next
  case (step y z)
  from step_edits [OF step.hyps(2)] obtain new where "ScreenshotEdits z = ScreenshotEdits y @ new" ..
  with step.IH show ?case by auto
qed

lemma step_store3_store4: "step store3 store4"
  unfolding store4_def by (rule step.call) (rule isUUID_examples)

theorem edits_append_only_witness:
  "step\<^sup>*\<^sup>* store3 store4 \<and> edit3 \<in> set (ScreenshotEdits store3)
   \<and> edit3 \<in> set (ScreenshotEdits store4)"
proof -
  have steps: "step\<^sup>*\<^sup>* store3 store4" using step_store3_store4 by (rule r_into_rtranclp)
  have mem: "edit3 \<in> set (ScreenshotEdits store3)" by (simp add: store3_eq)
  from edits_append_only [OF steps] mem have "edit3 \<in> set (ScreenshotEdits store4)" by blast
  with steps mem show ?thesis by blast
qed

lemma listProjects_rows:
  "server ListProjects raw ctx e s = (Inr r, s') \<Longrightarrow> requireUser ctx = Inr u \<Longrightarrow>
     \<exists>items. data r = ProjectItems items (length items)
       \<and> (\<forall>p \<in> set items. p \<in> set (ScreenshotProjects s) \<and> p_userId p = user_id u)"
  by (auto simp: defineAction_def listProjects_handler_def Let_def split: sum.splits)

lemma listScreenshots_rows:
  "server ListScreenshots raw ctx e s = (Inr r, s') \<Longrightarrow> requireUser ctx = Inr u \<Longrightarrow>
     \<exists>items. data r = ScreenshotItems items (length items)
       \<and> (\<forall>x \<in> set items. x \<in> set (Screenshots s) \<and> s_userId x = user_id u)"
  by (auto simp: defineAction_def listScreenshots_handler_def Let_def
      split: sum.splits option.splits if_splits)

lemma listScreenshotEdits_rows:
  assumes "server ListScreenshotEdits raw ctx e s = (Inr r, s')" "requireUser ctx = Inr u"
    and "editsOwned s" "uniqueKeys s"
  shows "\<exists>items. data r = EditItems items (length items)
       \<and> (\<forall>d \<in> set items. d \<in> set (ScreenshotEdits s) \<and> e_userId d = user_id u)"
proof -
  from assms(1) obtain i where i: "listScreenshotEdits_handler i ctx e s = (Inr r, s')"
    by (auto simp: defineAction_def split: sum.splits)
  with assms(2) obtain shot where
    shot: "getOwnedScreenshot (le_screenshotId i) (user_id u) s = Inr shot"
    by (auto simp: listScreenshotEdits_handler_def split: sum.splits)
  let ?items = "filter (\<lambda>d. e_screenshotId d = le_screenshotId i) (ScreenshotEdits s)"
  from i assms(2) shot have "data r = EditItems ?items (length ?items)"
    by (auto simp: listScreenshotEdits_handler_def Let_def)
  moreover have "\<forall>d \<in> set ?items. d \<in> set (ScreenshotEdits s) \<and> e_userId d = user_id u"
    using owned_screenshot_edits [OF assms(3,4) shot] by auto
  ultimately show ?thesis by blast
qed

text \<open>
  C1. For an authenticated caller \<open>A\<close> and a reachable store, whatever the input,
  \<^verbatim>\<open>listProjects\<close>, \<^verbatim>\<open>listScreenshots\<close> and \<^verbatim>\<open>listScreenshotEdits\<close>
  return only rows of the store whose \<^verbatim>\<open>userId\<close> is the id of \<open>A\<close>.
\<close>

theorem lists_return_only_the_callers_rows:
  "reachable s \<Longrightarrow> requireUser ctx = Inr A \<Longrightarrow>
     (server ListProjects raw ctx e s = (Inr r, s') \<longrightarrow>
        (\<exists>items. data r = ProjectItems items (length items)
           \<and> (\<forall>p \<in> set items. p \<in> set (ScreenshotProjects s) \<and> p_userId p = user_id A)))
     \<and> (server ListScreenshots raw ctx e s = (Inr r, s') \<longrightarrow>
        (\<exists>items. data r = ScreenshotItems items (length items)
           \<and> (\<forall>x \<in> set items. x \<in> set (Screenshots s) \<and> s_userId x = user_id A)))
     \<and> (server ListScreenshotEdits raw ctx e s = (Inr r, s') \<longrightarrow>
        (\<exists>items. data r = EditItems items (length items)
           \<and> (\<forall>d \<in> set items. d \<in> set (ScreenshotEdits s) \<and> e_userId d = user_id A)))"
proof (intro conjI impI)
  assume reach: "reachable s" and auth: "requireUser ctx = Inr A"
  {
    assume "server ListProjects raw ctx e s = (Inr r, s')"
    then show "\<exists>items. data r = ProjectItems items (length items)
           \<and> (\<forall>p \<in> set items. p \<in> set (ScreenshotProjects s) \<and> p_userId p = user_id A)"
      using auth by (rule listProjects_rows)
  }
  {
    assume "server ListScreenshots raw ctx e s = (Inr r, s')"
    then show "\<exists>items. data r = ScreenshotItems items (length items)
           \<and> (\<forall>x \<in> set items. x \<in> set (Screenshots s) \<and> s_userId x = user_id A)"
      using auth by (rule listScreenshots_rows)
  }
  {
    assume "server ListScreenshotEdits raw ctx e s = (Inr r, s')"
    then show "\<exists>items. data r = EditItems items (length items)
           \<and> (\<forall>d \<in> set items. d \<in> set (ScreenshotEdits s) \<and> e_userId d = user_id A)"
      using auth reachable_editsOwned [OF reach] reachable_uniqueKeys [OF reach]
      by (rule listScreenshotEdits_rows)
  }
qed


lemma requireUser_signedIn: "requireUser (signedIn u) = Inr u"
  by (simp add: requireUser_def signedIn_def)

theorem lists_return_only_the_callers_rows_witness:
  "reachable store4 \<and> requireUser (signedIn alice) = Inr alice
   \<and> project4 \<in> set (ScreenshotProjects store4) \<and> p_userId project4 = ''bob''
   \<and> server ListProjects JUndefined (signedIn alice) (reading uuid5 500) store4
       = (Inr (Response True (ProjectItems [project1] 1)), store4)
   \<and> p_userId project1 = user_id alice
   \<and> server ListScreenshots (JObj [(''projectId'', JStr uuid1)]) (signedIn alice)
         (reading uuid5 500) store4
       = (Inr (Response True (ScreenshotItems [screenshot2] 1)), store4)
   \<and> s_userId screenshot2 = user_id alice
   \<and> server ListScreenshotEdits (JObj [(''screenshotId'', JStr uuid2)]) (signedIn alice)
         (reading uuid5 500) store4
       = (Inr (Response True (EditItems [edit3] 1)), store4)
   \<and> e_userId edit3 = user_id alice
   \<and> server ListScreenshotEdits (JObj [(''screenshotId'', JStr uuid2)]) (signedIn bob)
         (reading uuid5 500) store4
       = (Inl (ActionError NOT_FOUND ''Screenshot not found.''), store4)"
proof -
  note main = lists_return_only_the_callers_rows [OF reachable_store4 requireUser_signedIn [of alice]]
  have other: "project4 \<in> set (ScreenshotProjects store4)" "p_userId project4 = ''bob''"
    by (simp_all add: store4_eq example_defs)
  have p: "server ListProjects JUndefined (signedIn alice) (reading uuid5 500) store4
       = (Inr (Response True (ProjectItems [project1] 1)), store4)"
    by (simp add: store4_eq run_defs example_defs)
  have x: "server ListScreenshots (JObj [(''projectId'', JStr uuid1)]) (signedIn alice)
         (reading uuid5 500) store4
       = (Inr (Response True (ScreenshotItems [screenshot2] 1)), store4)"
    by (simp add: store4_eq run_defs example_defs)
  have d: "server ListScreenshotEdits (JObj [(''screenshotId'', JStr uuid2)]) (signedIn alice)
         (reading uuid5 500) store4
       = (Inr (Response True (EditItems [edit3] 1)), store4)"
    by (simp add: store4_eq run_defs example_defs)
  have b: "server ListScreenshotEdits (JObj [(''screenshotId'', JStr uuid2)]) (signedIn bob)
         (reading uuid5 500) store4
       = (Inl (ActionError NOT_FOUND ''Screenshot not found.''), store4)"
    by (simp add: store4_eq run_defs example_defs)
  from main [where raw = "JUndefined" and e = "reading uuid5 500"
      and r = "Response True (ProjectItems [project1] 1)" and s' = store4] p
  have "p_userId project1 = user_id alice"
    by auto
  moreover from main [where raw = "JObj [(''projectId'', JStr uuid1)]" and e = "reading uuid5 500"
      and r = "Response True (ScreenshotItems [screenshot2] 1)" and s' = store4] x
  have "s_userId screenshot2 = user_id alice"
    by auto
  moreover from main [where raw = "JObj [(''screenshotId'', JStr uuid2)]" and e = "reading uuid5 500"
      and r = "Response True (EditItems [edit3] 1)" and s' = store4] d
  have "e_userId edit3 = user_id alice"
    by auto
  ultimately show ?thesis
    using reachable_store4 requireUser_signedIn other p x d b by blast
qed

lemma createProject_owner:
  "server CreateProject raw ctx e s = (Inr r, s') \<Longrightarrow>
     \<exists>u row. requireUser ctx = Inr u \<and> data r = ProjectData (Some row)
       \<and> p_userId row = user_id u \<and> ScreenshotProjects s' = ScreenshotProjects s @ [row]"
  by (auto simp: defineAction_def createProject_handler_def insertProject_def
      split: sum.splits if_splits)

lemma createScreenshot_owner:
  "server CreateScreenshot raw ctx e s = (Inr r, s') \<Longrightarrow>
     \<exists>u row. requireUser ctx = Inr u \<and> data r = ScreenshotData (Some row)
       \<and> s_userId row = user_id u \<and> Screenshots s' = Screenshots s @ [row]"
  by (auto simp: defineAction_def createScreenshot_handler_def insertScreenshot_def
      split: sum.splits if_splits option.splits)

lemma createScreenshotEdit_owner:
  "server CreateScreenshotEdit raw ctx e s = (Inr r, s') \<Longrightarrow>
     \<exists>u row. requireUser ctx = Inr u \<and> data r = EditData (Some row)
       \<and> e_userId row = user_id u \<and> ScreenshotEdits s' = ScreenshotEdits s @ [row]"
  by (auto simp: defineAction_def createScreenshotEdit_handler_def insertEdit_def
      split: sum.splits if_splits)

lemma field_append_other:
  "k \<noteq> k' \<Longrightarrow> field (kvs @ [(k', v)]) k = field kvs k"
  by (simp add: field_def)

lemma schemas_drop_userId:
  "createProject_schema (JObj (kvs @ [(''userId'', v)])) = createProject_schema (JObj kvs)"
  "createScreenshot_schema (JObj (kvs @ [(''userId'', v)])) = createScreenshot_schema (JObj kvs)"
  "createScreenshotEdit_schema (JObj (kvs @ [(''userId'', v)]))
     = createScreenshotEdit_schema (JObj kvs)"
  by (simp_all add: createProject_schema_def createScreenshot_schema_def
      createScreenshotEdit_schema_def field_append_other Let_def cong del: if_weak_cong)

text \<open>
  C2. When \<^verbatim>\<open>createProject\<close>, \<^verbatim>\<open>createScreenshot\<close> or
  \<^verbatim>\<open>createScreenshotEdit\<close> succeeds, the caller is authenticated, the row returned
  is the row inserted, and its \<^verbatim>\<open>userId\<close> is the caller's id, for every raw input;
  a \<^verbatim>\<open>userId\<close> entry in the input changes nothing.
\<close>

theorem created_rows_belong_to_the_caller:
  "(server CreateProject raw ctx e s = (Inr r, s') \<longrightarrow>
      (\<exists>u row. requireUser ctx = Inr u \<and> data r = ProjectData (Some row)
         \<and> p_userId row = user_id u \<and> ScreenshotProjects s' = ScreenshotProjects s @ [row]))
   \<and> (server CreateScreenshot raw ctx e s = (Inr r, s') \<longrightarrow>
      (\<exists>u row. requireUser ctx = Inr u \<and> data r = ScreenshotData (Some row)
         \<and> s_userId row = user_id u \<and> Screenshots s' = Screenshots s @ [row]))
   \<and> (server CreateScreenshotEdit raw ctx e s = (Inr r, s') \<longrightarrow>
      (\<exists>u row. requireUser ctx = Inr u \<and> data r = EditData (Some row)
         \<and> e_userId row = user_id u \<and> ScreenshotEdits s' = ScreenshotEdits s @ [row]))
   \<and> server CreateProject (JObj (kvs @ [(''userId'', v)])) ctx e s
       = server CreateProject (JObj kvs) ctx e s
   \<and> server CreateScreenshot (JObj (kvs @ [(''userId'', v)])) ctx e s
       = server CreateScreenshot (JObj kvs) ctx e s
   \<and> server CreateScreenshotEdit (JObj (kvs @ [(''userId'', v)])) ctx e s
       = server CreateScreenshotEdit (JObj kvs) ctx e s"
proof (intro conjI impI)
  show "server CreateProject (JObj (kvs @ [(''userId'', v)])) ctx e s
       = server CreateProject (JObj kvs) ctx e s"
    by (simp add: defineAction_def schemas_drop_userId)
  show "server CreateScreenshot (JObj (kvs @ [(''userId'', v)])) ctx e s
       = server CreateScreenshot (JObj kvs) ctx e s"
    by (simp add: defineAction_def schemas_drop_userId)
  show "server CreateScreenshotEdit (JObj (kvs @ [(''userId'', v)])) ctx e s
       = server CreateScreenshotEdit (JObj kvs) ctx e s"
    by (simp add: defineAction_def schemas_drop_userId)
qed (erule createProject_owner createScreenshot_owner createScreenshotEdit_owner)+

theorem created_rows_belong_to_the_caller_witness:
  "requireUser (signedIn alice) = Inr alice
   \<and> server CreateProject (JObj [(''title'', JStr ''Bug report''), (''userId'', JStr ''bob'')])
        (signedIn alice) (reading uuid1 100) (emptyStore False)
       = (Inr (Response True (ProjectData (Some project1))), store1)
   \<and> p_userId project1 = user_id alice
   \<and> ScreenshotProjects store1 = ScreenshotProjects (emptyStore False) @ [project1]
   \<and> server CreateScreenshot
        (JObj [(''projectId'', JStr uuid1), (''originalImageUrl'', JStr ''img://1''),
               (''userId'', JStr ''bob'')])
        (signedIn alice) (reading uuid2 200) store1
       = (Inr (Response True (ScreenshotData (Some screenshot2))), store2)
   \<and> s_userId screenshot2 = user_id alice
   \<and> Screenshots store2 = Screenshots store1 @ [screenshot2]
   \<and> server CreateScreenshotEdit
        (JObj [(''screenshotId'', JStr uuid2), (''editType'', JStr ''crop''),
               (''userId'', JStr ''bob'')])
        (signedIn alice) (reading uuid3 300) store2
       = (Inr (Response True (EditData (Some edit3))), store3)
   \<and> e_userId edit3 = user_id alice
   \<and> ScreenshotEdits store3 = ScreenshotEdits store2 @ [edit3]"
proof -
  have run1: "server CreateProject
      (JObj [(''title'', JStr ''Bug report''), (''userId'', JStr ''bob'')])
      (signedIn alice) (reading uuid1 100) (emptyStore False)
     = (Inr (Response True (ProjectData (Some project1))), store1)"
    by (simp add: store1_eq run_defs example_defs)
  have run2: "server CreateScreenshot
        (JObj [(''projectId'', JStr uuid1), (''originalImageUrl'', JStr ''img://1''),
               (''userId'', JStr ''bob'')])
        (signedIn alice) (reading uuid2 200) store1
       = (Inr (Response True (ScreenshotData (Some screenshot2))), store2)"
    by (simp add: store1_eq store2_eq run_defs example_defs)
  have run3: "server CreateScreenshotEdit
        (JObj [(''screenshotId'', JStr uuid2), (''editType'', JStr ''crop''),
               (''userId'', JStr ''bob'')])
        (signedIn alice) (reading uuid3 300) store2
       = (Inr (Response True (EditData (Some edit3))), store3)"
    by (simp add: store2_eq store3_eq run_defs example_defs)
  from created_rows_belong_to_the_caller
    [where raw = "JObj [(''title'', JStr ''Bug report''), (''userId'', JStr ''bob'')]"
       and ctx = "signedIn alice" and e = "reading uuid1 100" and s = "emptyStore False"
       and r = "Response True (ProjectData (Some project1))" and s' = store1] run1
  have own1: "p_userId project1 = user_id alice"
    "ScreenshotProjects store1 = ScreenshotProjects (emptyStore False) @ [project1]"
    by (auto simp: requireUser_signedIn)
  from created_rows_belong_to_the_caller
    [where raw = "JObj [(''projectId'', JStr uuid1), (''originalImageUrl'', JStr ''img://1''),
               (''userId'', JStr ''bob'')]"
       and ctx = "signedIn alice" and e = "reading uuid2 200" and s = store1
       and r = "Response True (ScreenshotData (Some screenshot2))" and s' = store2] run2
  have own2: "s_userId screenshot2 = user_id alice"
    "Screenshots store2 = Screenshots store1 @ [screenshot2]"
    by (auto simp: requireUser_signedIn)
  from created_rows_belong_to_the_caller
    [where raw = "JObj [(''screenshotId'', JStr uuid2), (''editType'', JStr ''crop''),
               (''userId'', JStr ''bob'')]"
       and ctx = "signedIn alice" and e = "reading uuid3 300" and s = store2
       and r = "Response True (EditData (Some edit3))" and s' = store3] run3
  have own3: "e_userId edit3 = user_id alice"
    "ScreenshotEdits store3 = ScreenshotEdits store2 @ [edit3]"
    by (auto simp: requireUser_signedIn)
  from run1 run2 run3 own1 own2 own3 show ?thesis
    by (simp add: requireUser_signedIn)
qed

lemma getOwnedProject_NotFound:
  "getOwnedProject pid uid s = Inl (ActionError NOT_FOUND ''Project not found.'')
     \<longleftrightarrow> (\<forall>p \<in> set (ScreenshotProjects s). \<not> (p_id p = pid \<and> p_userId p = uid))"
  by (auto simp: getOwnedProject_def first_filter_None split: option.splits dest: first_filter_Some)













lemma updateProject_schema_no_fields:
  assumes "field kvs ''id'' = JStr i"
    and "field kvs ''title'' = JUndefined" "field kvs ''description'' = JUndefined"
    and "field kvs ''sourceDevice'' = JUndefined" "field kvs ''sourceApp'' = JUndefined"
  shows "updateProject_schema (JObj kvs)
    = Inl ((if i = [] then [TooSmall ''id''] else [])
           @ [Custom ''At least one field must be provided to update.''])"
  using assms
  by (simp add: updateProject_schema_def updateProject_refine_def typeIssues_def
      isString_def isOptString_def theString_def optString_def Let_def)

lemma updateScreenshot_schema_no_fields:
  assumes "field kvs ''id'' = JStr i"
    and "field kvs ''projectId'' = JUndefined" "field kvs ''editedImageUrl'' = JUndefined"
    and "field kvs ''width'' = JUndefined" "field kvs ''height'' = JUndefined"
  shows "updateScreenshot_schema (JObj kvs)
    = Inl ((if i = [] then [TooSmall ''id''] else [])
           @ [Custom ''At least one field must be provided to update.''])"
  using assms
  by (simp add: updateScreenshot_schema_def updateScreenshot_refine_def typeIssues_def
      isString_def isOptString_def isOptNumber_def theString_def optString_def optNumber_def
      Let_def)

text \<open>
  C6. An \<^verbatim>\<open>updateProject\<close> or \<^verbatim>\<open>updateScreenshot\<close> input that supplies the id and
  none of the updatable fields fails input validation with the message of the refinement:
  the result is the same for every context and every store, and the store is returned as
  it was.
\<close>

theorem empty_update_fails_validation:
  "(field kvs ''id'' = JStr i \<longrightarrow>
    field kvs ''title'' = JUndefined \<longrightarrow> field kvs ''description'' = JUndefined \<longrightarrow>
    field kvs ''sourceDevice'' = JUndefined \<longrightarrow> field kvs ''sourceApp'' = JUndefined \<longrightarrow>
      server UpdateProject (JObj kvs) ctx e s
        = (Inl (ActionInputError
                 ((if i = [] then [TooSmall ''id''] else [])
                  @ [Custom ''At least one field must be provided to update.''])), s))
   \<and> (field kvs ''id'' = JStr i \<longrightarrow>
    field kvs ''projectId'' = JUndefined \<longrightarrow> field kvs ''editedImageUrl'' = JUndefined \<longrightarrow>
    field kvs ''width'' = JUndefined \<longrightarrow> field kvs ''height'' = JUndefined \<longrightarrow>
      server UpdateScreenshot (JObj kvs) ctx e s
        = (Inl (ActionInputError
                 ((if i = [] then [TooSmall ''id''] else [])
                  @ [Custom ''At least one field must be provided to update.''])), s))"
  by (simp add: defineAction_def updateProject_schema_no_fields
      updateScreenshot_schema_no_fields)

theorem empty_update_fails_validation_witness:
  "field [(''id'', JStr uuid1)] ''id'' = JStr uuid1
   \<and> field [(''id'', JStr uuid1)] ''title'' = JUndefined
   \<and> field [(''id'', JStr uuid1)] ''description'' = JUndefined
   \<and> field [(''id'', JStr uuid1)] ''sourceDevice'' = JUndefined
   \<and> field [(''id'', JStr uuid1)] ''sourceApp'' = JUndefined
   \<and> server UpdateProject (JObj [(''id'', JStr uuid1)]) (signedIn alice) (reading uuid5 500) store1
       = (Inl (ActionInputError [Custom ''At least one field must be provided to update.'']),
          store1)
   \<and> field [(''id'', JStr uuid2)] ''id'' = JStr uuid2
   \<and> field [(''id'', JStr uuid2)] ''projectId'' = JUndefined
   \<and> field [(''id'', JStr uuid2)] ''editedImageUrl'' = JUndefined
   \<and> field [(''id'', JStr uuid2)] ''width'' = JUndefined
   \<and> field [(''id'', JStr uuid2)] ''height'' = JUndefined
   \<and> server UpdateScreenshot (JObj [(''id'', JStr uuid2)]) (signedIn alice) (reading uuid5 500)
         store2
       = (Inl (ActionInputError [Custom ''At least one field must be provided to update.'']),
          store2)"
proof -
  have f: "field [(''id'', JStr uuid1)] ''id'' = JStr uuid1"
    "field [(''id'', JStr uuid1)] ''title'' = JUndefined"
    "field [(''id'', JStr uuid1)] ''description'' = JUndefined"
    "field [(''id'', JStr uuid1)] ''sourceDevice'' = JUndefined"
    "field [(''id'', JStr uuid1)] ''sourceApp'' = JUndefined"
    "field [(''id'', JStr uuid2)] ''id'' = JStr uuid2"
    "field [(''id'', JStr uuid2)] ''projectId'' = JUndefined"
    "field [(''id'', JStr uuid2)] ''editedImageUrl'' = JUndefined"
    "field [(''id'', JStr uuid2)] ''width'' = JUndefined"
    "field [(''id'', JStr uuid2)] ''height'' = JUndefined"
    by (simp_all add: field_def)
  have ne: "uuid1 \<noteq> []" "uuid2 \<noteq> []" by (simp_all add: example_defs)
  from empty_update_fails_validation
    [where kvs = "[(''id'', JStr uuid1)]" and i = uuid1 and ctx = "signedIn alice"
       and e = "reading uuid5 500" and s = store1] f(1-5) ne
  have a: "server UpdateProject (JObj [(''id'', JStr uuid1)]) (signedIn alice)
      (reading uuid5 500) store1
       = (Inl (ActionInputError [Custom ''At least one field must be provided to update.'']),
          store1)"
    by simp
  from empty_update_fails_validation
    [where kvs = "[(''id'', JStr uuid2)]" and i = uuid2 and ctx = "signedIn alice"
       and e = "reading uuid5 500" and s = store2] f(6-10) ne
  have b: "server UpdateScreenshot (JObj [(''id'', JStr uuid2)]) (signedIn alice)
      (reading uuid5 500) store2
       = (Inl (ActionInputError [Custom ''At least one field must be provided to update.'']),
          store2)"
    by simp
  from f a b show ?thesis by blast
qed

lemma typeIssues_empty: "typeIssues cs = [] \<longleftrightarrow> (\<forall>c \<in> set cs. snd c)"
  by (auto simp: typeIssues_def filter_empty_conv)

lemma schema_issues_nonempty:
  "createProject_schema raw = Inl is \<Longrightarrow> is \<noteq> []"
  "updateProject_schema raw = Inl is \<Longrightarrow> is \<noteq> []"
  "listProjects_schema raw = Inl is \<Longrightarrow> is \<noteq> []"
  "createScreenshot_schema raw = Inl is \<Longrightarrow> is \<noteq> []"
  "updateScreenshot_schema raw = Inl is \<Longrightarrow> is \<noteq> []"
  "listScreenshots_schema raw = Inl is \<Longrightarrow> is \<noteq> []"
  "createScreenshotEdit_schema raw = Inl is \<Longrightarrow> is \<noteq> []"
  "listScreenshotEdits_schema raw = Inl is \<Longrightarrow> is \<noteq> []"
  by (auto simp: createProject_schema_def updateProject_schema_def listProjects_schema_def
      createScreenshot_schema_def updateScreenshot_schema_def listScreenshots_schema_def
      createScreenshotEdit_schema_def listScreenshotEdits_schema_def Let_def
      split: jvalue.splits if_splits)

lemma requireUser_unauthenticated:
  "\<not> authenticated ctx \<Longrightarrow>
     requireUser ctx = Inl (ActionError UNAUTHORIZED ''You must be signed in to perform this action.'')"
  by (auto simp: authenticated_def requireUser_def split: option.splits)

lemma handlers_unauthenticated:
  assumes "\<not> authenticated ctx"
  shows "createProject_handler i1 ctx e s
      = (Inl (ActionError UNAUTHORIZED ''You must be signed in to perform this action.''), s)"
    and "updateProject_handler i2 ctx e s
      = (Inl (ActionError UNAUTHORIZED ''You must be signed in to perform this action.''), s)"
    and "listProjects_handler i3 ctx e s
      = (Inl (ActionError UNAUTHORIZED ''You must be signed in to perform this action.''), s)"
    and "createScreenshot_handler i4 ctx e s
      = (Inl (ActionError UNAUTHORIZED ''You must be signed in to perform this action.''), s)"
    and "updateScreenshot_handler i5 ctx e s
      = (Inl (ActionError UNAUTHORIZED ''You must be signed in to perform this action.''), s)"
    and "listScreenshots_handler i6 ctx e s
      = (Inl (ActionError UNAUTHORIZED ''You must be signed in to perform this action.''), s)"
    and "createScreenshotEdit_handler i7 ctx e s
      = (Inl (ActionError UNAUTHORIZED ''You must be signed in to perform this action.''), s)"
    and "listScreenshotEdits_handler i8 ctx e s
      = (Inl (ActionError UNAUTHORIZED ''You must be signed in to perform this action.''), s)"
  by (simp_all add: requireUser_unauthenticated [OF assms] createProject_handler_def
      updateProject_handler_def listProjects_handler_def createScreenshot_handler_def
      updateScreenshot_handler_def listScreenshots_handler_def
      createScreenshotEdit_handler_def listScreenshotEdits_handler_def)

lemma defineAction_unauthenticated:
  assumes "\<And>i. h i ctx e s
      = (Inl (ActionError UNAUTHORIZED ''You must be signed in to perform this action.''), s)"
    and "\<And>is. sch raw = Inl is \<Longrightarrow> is \<noteq> []"
  shows "defineAction sch h raw ctx e s =
     (Inl (if (case sch raw of Inl is \<Rightarrow> is | Inr x \<Rightarrow> []) = []
           then ActionError UNAUTHORIZED ''You must be signed in to perform this action.''
           else ActionInputError (case sch raw of Inl is \<Rightarrow> is | Inr x \<Rightarrow> [])), s)"
  using assms(2) by (cases "sch raw") (auto simp: defineAction_def assms(1))

text \<open>
  C9, as amended. Input validation runs before the handler. For a context with no
  authenticated user, every action fails with \<^verbatim>\<open>UNAUTHORIZED\<close> on every input that
  parses, whatever the store, which is left unchanged: the authentication check is the
  first step of every handler, before any ownership check or store access. An input that
  does not parse fails with the input error instead, authenticated or not.
\<close>

theorem unauthenticated_valid_input_is_unauthorized:
  "\<not> authenticated ctx \<Longrightarrow>
     server a raw ctx e s =
       (Inl (if inputIssues a raw = []
             then ActionError UNAUTHORIZED ''You must be signed in to perform this action.''
             else ActionInputError (inputIssues a raw)), s)"
  by (cases a; simp only: server.simps inputIssues.simps;
      rule defineAction_unauthenticated;
      (erule handlers_unauthenticated | erule schema_issues_nonempty))

lemma not_authenticated_anonymous: "\<not> authenticated anonymous"
  by (simp add: authenticated_def anonymous_def)

theorem unauthenticated_valid_input_is_unauthorized_witness:
  "\<not> authenticated anonymous
   \<and> inputIssues UpdateProject (JObj [(''id'', JStr uuid1), (''title'', JStr ''New'')]) = []
   \<and> server UpdateProject (JObj [(''id'', JStr uuid1), (''title'', JStr ''New'')]) anonymous
        (reading uuid5 500) store1
       = (Inl (ActionError UNAUTHORIZED ''You must be signed in to perform this action.''),
          store1)"
proof -
  have ok: "inputIssues UpdateProject (JObj [(''id'', JStr uuid1), (''title'', JStr ''New'')]) = []"
    by (simp add: schema_defs example_defs)
  from unauthenticated_valid_input_is_unauthorized [OF not_authenticated_anonymous,
      of UpdateProject "JObj [(''id'', JStr uuid1), (''title'', JStr ''New'')]"
         "reading uuid5 500" store1] ok
  have "server UpdateProject (JObj [(''id'', JStr uuid1), (''title'', JStr ''New'')]) anonymous
        (reading uuid5 500) store1
       = (Inl (ActionError UNAUTHORIZED ''You must be signed in to perform this action.''),
          store1)"
    by simp
  with ok not_authenticated_anonymous show ?thesis by blast
qed

text \<open>
  C9 as stated fails: without an authenticated user, an input that does not parse yields
  the input error, not \<^verbatim>\<open>UNAUTHORIZED\<close>.
\<close>

theorem unauthenticated_invalid_input_counterexample:
  "\<not> authenticated anonymous
   \<and> server UpdateProject (JObj [(''id'', JStr uuid1)]) anonymous (reading uuid5 500) store1
       = (Inl (ActionInputError [Custom ''At least one field must be provided to update.'']),
          store1)
   \<and> server CreateScreenshotEdit (JObj [(''screenshotId'', JStr [])]) anonymous
        (reading uuid5 500) store1
       = (Inl (ActionInputError [TooSmall ''screenshotId'']), store1)"
  by (simp add: authenticated_def run_defs example_defs)

lemma filter_key_unique:
  "distinct (map k xs) \<Longrightarrow> x \<in> set xs \<Longrightarrow> filter (\<lambda>y. k y = k x) xs = [x]"
proof (induction xs)
  case Nil
  then show ?case by simp
next
  case (Cons a xs)
  show ?case
  proof (cases "a = x")
    case True
    with Cons.prems have "\<forall>y \<in> set xs. k y \<noteq> k x" by (auto simp: image_iff)
    then have "filter (\<lambda>y. k y = k x) xs = []" by (simp add: filter_empty_conv)
    with True show ?thesis by simp
  next
    case False
    with Cons.prems have "x \<in> set xs" "k a \<noteq> k x" by auto
    with Cons show ?thesis by simp
  qed
qed

lemma map_key_unique:
  "distinct (map k xs) \<Longrightarrow> x \<in> set xs \<Longrightarrow>
     map (\<lambda>y. if k y = k x then f y else y) xs = map (\<lambda>y. if y = x then f x else y) xs"
  by (rule map_cong) (auto simp: distinct_map dest: inj_onD)

lemma updateProject_success:
  assumes uniq: "uniqueKeys s"
    and run: "server UpdateProject raw ctx e s = (Inr r, s')"
  shows "\<exists>i u old.
      updateProject_schema raw = Inr i \<and> requireUser ctx = Inr u
      \<and> old \<in> set (ScreenshotProjects s) \<and> p_id old = up_id i \<and> p_userId old = user_id u
      \<and> data r = ProjectData (Some (applyProjectSet
            \<lparr>set_title = up_title i, set_description = up_description i,
             set_sourceDevice = up_sourceDevice i, set_sourceApp = up_sourceApp i,
             set_p_updatedAt = now e\<rparr> old))
      \<and> ScreenshotProjects s' = map (\<lambda>p. if p = old then applyProjectSet
            \<lparr>set_title = up_title i, set_description = up_description i,
             set_sourceDevice = up_sourceDevice i, set_sourceApp = up_sourceApp i,
             set_p_updatedAt = now e\<rparr> old else p) (ScreenshotProjects s)
      \<and> Screenshots s' = Screenshots s \<and> ScreenshotEdits s' = ScreenshotEdits s"
proof -
  from run obtain i where i: "updateProject_schema raw = Inr i"
    and h: "updateProject_handler i ctx e s = (Inr r, s')"
    by (auto simp: defineAction_def split: sum.splits)
  from h obtain u where u: "requireUser ctx = Inr u"
    by (auto simp: updateProject_handler_def split: sum.splits)
  from h u obtain old where old: "getOwnedProject (up_id i) (user_id u) s = Inr old"
    by (auto simp: updateProject_handler_def split: sum.splits)
  then have mem: "old \<in> set (ScreenshotProjects s)" "p_id old = up_id i"
    "p_userId old = user_id u"
    by (auto simp: getOwnedProject_def split: option.splits dest: first_filter_Some)
  from uniq have d: "distinct (map p_id (ScreenshotProjects s))" by (simp add: uniqueKeys_def)
  let ?c = "\<lparr>set_title = up_title i, set_description = up_description i,
             set_sourceDevice = up_sourceDevice i, set_sourceApp = up_sourceApp i,
             set_p_updatedAt = now e\<rparr>"
  have f: "filter (\<lambda>p. p_id p = up_id i) (ScreenshotProjects s) = [old]"
    using filter_key_unique [OF d mem(1)] mem(2) by simp
  have m: "map (\<lambda>p. if p_id p = up_id i then applyProjectSet ?c p else p) (ScreenshotProjects s)
         = map (\<lambda>p. if p = old then applyProjectSet ?c old else p) (ScreenshotProjects s)"
    using map_key_unique [OF d mem(1), of "applyProjectSet ?c"] mem(2) by simp
  from h u old have "data r = ProjectData (Some (applyProjectSet ?c old))"
    and "ScreenshotProjects s' = map (\<lambda>p. if p = old then applyProjectSet ?c old else p) (ScreenshotProjects s)"
    and "Screenshots s' = Screenshots s" and "ScreenshotEdits s' = ScreenshotEdits s"
    by (auto simp: updateProject_handler_def updateProjects_def f m)
  with i u mem show ?thesis by blast
qed

lemma updateScreenshot_success:
  assumes uniq: "uniqueKeys s"
    and run: "server UpdateScreenshot raw ctx e s = (Inr r, s')"
  shows "\<exists>i u old.
      updateScreenshot_schema raw = Inr i \<and> requireUser ctx = Inr u
      \<and> old \<in> set (Screenshots s) \<and> s_id old = us_id i \<and> s_userId old = user_id u
      \<and> data r = ScreenshotData (Some (applyScreenshotSet
            \<lparr>set_projectId = us_projectId i, set_editedImageUrl = us_editedImageUrl i,
             set_width = us_width i, set_height = us_height i,
             set_s_updatedAt = now e\<rparr> old))
      \<and> Screenshots s' = map (\<lambda>x. if x = old then applyScreenshotSet
            \<lparr>set_projectId = us_projectId i, set_editedImageUrl = us_editedImageUrl i,
             set_width = us_width i, set_height = us_height i,
             set_s_updatedAt = now e\<rparr> old else x) (Screenshots s)
      \<and> ScreenshotProjects s' = ScreenshotProjects s \<and> ScreenshotEdits s' = ScreenshotEdits s"
proof -
  from run obtain i where i: "updateScreenshot_schema raw = Inr i"
    and h: "updateScreenshot_handler i ctx e s = (Inr r, s')"
    by (auto simp: defineAction_def split: sum.splits)
  from h obtain u where u: "requireUser ctx = Inr u"
    by (auto simp: updateScreenshot_handler_def split: sum.splits)
  from h u obtain old where
    old: "first (filter (\<lambda>r. s_id r = us_id i \<and> s_userId r = user_id u) (Screenshots s)) = Some old"
    by (auto simp: updateScreenshot_handler_def split: sum.splits option.splits)
  then have mem: "old \<in> set (Screenshots s)" "s_id old = us_id i" "s_userId old = user_id u"
    by (auto dest: first_filter_Some)
  from uniq have d: "distinct (map s_id (Screenshots s))" by (simp add: uniqueKeys_def)
  let ?c = "\<lparr>set_projectId = us_projectId i, set_editedImageUrl = us_editedImageUrl i,
             set_width = us_width i, set_height = us_height i,
             set_s_updatedAt = now e\<rparr>"
  have f: "filter (\<lambda>r. s_id r = us_id i) (Screenshots s) = [old]"
    using filter_key_unique [OF d mem(1)] mem(2) by simp
  have m: "map (\<lambda>r. if s_id r = us_id i then applyScreenshotSet ?c r else r) (Screenshots s)
         = map (\<lambda>x. if x = old then applyScreenshotSet ?c old else x) (Screenshots s)"
    using map_key_unique [OF d mem(1), of "applyScreenshotSet ?c"] mem(2) by simp
  from h u old have "data r = ScreenshotData (Some (applyScreenshotSet ?c old))"
    and "Screenshots s' = map (\<lambda>x. if x = old then applyScreenshotSet ?c old else x) (Screenshots s)"
    and "ScreenshotProjects s' = ScreenshotProjects s" and "ScreenshotEdits s' = ScreenshotEdits s"
    by (auto simp: updateScreenshot_handler_def updateScreenshots_def f m
        split: sum.splits option.splits if_splits)
  with i u mem show ?thesis by blast
qed

text \<open>
  C5, as amended. In a reachable store, a successful \<^verbatim>\<open>updateProject\<close> or
  \<^verbatim>\<open>updateScreenshot\<close> rewrites the one row with the given id and no other: every
  field the input does not supply keeps its value, \<^verbatim>\<open>id\<close>, \<^verbatim>\<open>userId\<close>,
  \<^verbatim>\<open>createdAt\<close> (and \<^verbatim>\<open>originalImageUrl\<close>) are unchanged, and
  \<^verbatim>\<open>updatedAt\<close> becomes the clock reading of the call, which is at least the
  previous value whenever that reading is not earlier than the value stored.
\<close>

theorem updates_are_partial_and_keep_the_owner:
  "reachable s \<Longrightarrow>
   (server UpdateProject raw ctx e s = (Inr r, s') \<longrightarrow>
     (\<exists>i old new.
        updateProject_schema raw = Inr i \<and> old \<in> set (ScreenshotProjects s)
        \<and> p_id old = up_id i \<and> data r = ProjectData (Some new)
        \<and> ScreenshotProjects s' = map (\<lambda>p. if p = old then new else p) (ScreenshotProjects s)
        \<and> Screenshots s' = Screenshots s \<and> ScreenshotEdits s' = ScreenshotEdits s
        \<and> p_id new = p_id old \<and> p_userId new = p_userId old
        \<and> p_createdAt new = p_createdAt old
        \<and> p_title new = (case up_title i of None \<Rightarrow> p_title old | Some v \<Rightarrow> Some v)
        \<and> p_description new
            = (case up_description i of None \<Rightarrow> p_description old | Some v \<Rightarrow> Some v)
        \<and> p_sourceDevice new
            = (case up_sourceDevice i of None \<Rightarrow> p_sourceDevice old | Some v \<Rightarrow> Some v)
        \<and> p_sourceApp new
            = (case up_sourceApp i of None \<Rightarrow> p_sourceApp old | Some v \<Rightarrow> Some v)
        \<and> p_updatedAt new = now e
        \<and> (p_updatedAt old \<le> now e \<longrightarrow> p_updatedAt old \<le> p_updatedAt new)))
   \<and> (server UpdateScreenshot raw ctx e s = (Inr r, s') \<longrightarrow>
     (\<exists>i old new.
        updateScreenshot_schema raw = Inr i \<and> old \<in> set (Screenshots s)
        \<and> s_id old = us_id i \<and> data r = ScreenshotData (Some new)
        \<and> Screenshots s' = map (\<lambda>x. if x = old then new else x) (Screenshots s)
        \<and> ScreenshotProjects s' = ScreenshotProjects s
        \<and> ScreenshotEdits s' = ScreenshotEdits s
        \<and> s_id new = s_id old \<and> s_userId new = s_userId old
        \<and> s_originalImageUrl new = s_originalImageUrl old
        \<and> s_createdAt new = s_createdAt old
        \<and> s_projectId new
            = (case us_projectId i of None \<Rightarrow> s_projectId old | Some v \<Rightarrow> Some v)
        \<and> s_editedImageUrl new
            = (case us_editedImageUrl i of None \<Rightarrow> s_editedImageUrl old | Some v \<Rightarrow> Some v)
        \<and> s_width new = (case us_width i of None \<Rightarrow> s_width old | Some v \<Rightarrow> Some v)
        \<and> s_height new = (case us_height i of None \<Rightarrow> s_height old | Some v \<Rightarrow> Some v)
        \<and> s_updatedAt new = now e
        \<and> (s_updatedAt old \<le> now e \<longrightarrow> s_updatedAt old \<le> s_updatedAt new)))"
proof (intro conjI impI)
  assume reach: "reachable s"
  note uniq = reachable_uniqueKeys [OF reach]
  {
    assume "server UpdateProject raw ctx e s = (Inr r, s')"
    from updateProject_success [OF uniq this] obtain i u old where
      *: "updateProject_schema raw = Inr i" "old \<in> set (ScreenshotProjects s)"
        "p_id old = up_id i"
        "data r = ProjectData (Some (applyProjectSet
            \<lparr>set_title = up_title i, set_description = up_description i,
             set_sourceDevice = up_sourceDevice i, set_sourceApp = up_sourceApp i,
             set_p_updatedAt = now e\<rparr> old))"
        "ScreenshotProjects s' = map (\<lambda>p. if p = old then applyProjectSet
            \<lparr>set_title = up_title i, set_description = up_description i,
             set_sourceDevice = up_sourceDevice i, set_sourceApp = up_sourceApp i,
             set_p_updatedAt = now e\<rparr> old else p) (ScreenshotProjects s)"
        "Screenshots s' = Screenshots s" "ScreenshotEdits s' = ScreenshotEdits s"
      by blast
    show "\<exists>i old new.
        updateProject_schema raw = Inr i \<and> old \<in> set (ScreenshotProjects s)
        \<and> p_id old = up_id i \<and> data r = ProjectData (Some new)
        \<and> ScreenshotProjects s' = map (\<lambda>p. if p = old then new else p) (ScreenshotProjects s)
        \<and> Screenshots s' = Screenshots s \<and> ScreenshotEdits s' = ScreenshotEdits s
        \<and> p_id new = p_id old \<and> p_userId new = p_userId old
        \<and> p_createdAt new = p_createdAt old
        \<and> p_title new = (case up_title i of None \<Rightarrow> p_title old | Some v \<Rightarrow> Some v)
        \<and> p_description new
            = (case up_description i of None \<Rightarrow> p_description old | Some v \<Rightarrow> Some v)
        \<and> p_sourceDevice new
            = (case up_sourceDevice i of None \<Rightarrow> p_sourceDevice old | Some v \<Rightarrow> Some v)
        \<and> p_sourceApp new
            = (case up_sourceApp i of None \<Rightarrow> p_sourceApp old | Some v \<Rightarrow> Some v)
        \<and> p_updatedAt new = now e
        \<and> (p_updatedAt old \<le> now e \<longrightarrow> p_updatedAt old \<le> p_updatedAt new)"
      apply (rule exI [of _ i], rule exI [of _ old])
      apply (rule exI [of _ "applyProjectSet
            \<lparr>set_title = up_title i, set_description = up_description i,
             set_sourceDevice = up_sourceDevice i, set_sourceApp = up_sourceApp i,
             set_p_updatedAt = now e\<rparr> old"])
      using * by (simp add: applyProjectSet_def)
  }
  {
    assume "server UpdateScreenshot raw ctx e s = (Inr r, s')"
    from updateScreenshot_success [OF uniq this] obtain i u old where
      *: "updateScreenshot_schema raw = Inr i" "old \<in> set (Screenshots s)"
        "s_id old = us_id i"
        "data r = ScreenshotData (Some (applyScreenshotSet
            \<lparr>set_projectId = us_projectId i, set_editedImageUrl = us_editedImageUrl i,
             set_width = us_width i, set_height = us_height i,
             set_s_updatedAt = now e\<rparr> old))"
        "Screenshots s' = map (\<lambda>x. if x = old then applyScreenshotSet
            \<lparr>set_projectId = us_projectId i, set_editedImageUrl = us_editedImageUrl i,
             set_width = us_width i, set_height = us_height i,
             set_s_updatedAt = now e\<rparr> old else x) (Screenshots s)"
        "ScreenshotProjects s' = ScreenshotProjects s" "ScreenshotEdits s' = ScreenshotEdits s"
      by blast
    show "\<exists>i old new.
        updateScreenshot_schema raw = Inr i \<and> old \<in> set (Screenshots s)
        \<and> s_id old = us_id i \<and> data r = ScreenshotData (Some new)
        \<and> Screenshots s' = map (\<lambda>x. if x = old then new else x) (Screenshots s)
        \<and> ScreenshotProjects s' = ScreenshotProjects s
        \<and> ScreenshotEdits s' = ScreenshotEdits s
        \<and> s_id new = s_id old \<and> s_userId new = s_userId old
        \<and> s_originalImageUrl new = s_originalImageUrl old
        \<and> s_createdAt new = s_createdAt old
        \<and> s_projectId new
            = (case us_projectId i of None \<Rightarrow> s_projectId old | Some v \<Rightarrow> Some v)
        \<and> s_editedImageUrl new
            = (case us_editedImageUrl i of None \<Rightarrow> s_editedImageUrl old | Some v \<Rightarrow> Some v)
        \<and> s_width new = (case us_width i of None \<Rightarrow> s_width old | Some v \<Rightarrow> Some v)
        \<and> s_height new = (case us_height i of None \<Rightarrow> s_height old | Some v \<Rightarrow> Some v)
        \<and> s_updatedAt new = now e
        \<and> (s_updatedAt old \<le> now e \<longrightarrow> s_updatedAt old \<le> s_updatedAt new)"
      apply (rule exI [of _ i], rule exI [of _ old])
      apply (rule exI [of _ "applyScreenshotSet
            \<lparr>set_projectId = us_projectId i, set_editedImageUrl = us_editedImageUrl i,
             set_width = us_width i, set_height = us_height i,
             set_s_updatedAt = now e\<rparr> old"])
      using * by (simp add: applyScreenshotSet_def)
  }
qed

theorem updates_are_partial_and_keep_the_owner_witness:
  "reachable store1
   \<and> server UpdateProject (JObj [(''id'', JStr uuid1), (''sourceApp'', JStr ''Chrome'')])
        (signedIn alice) (reading uuid5 500) store1
       = (Inr (Response True (ProjectData (Some
            (project1\<lparr>p_sourceApp := Some ''Chrome'', p_updatedAt := 500\<rparr>)))),
          store1\<lparr>ScreenshotProjects :=
            [project1\<lparr>p_sourceApp := Some ''Chrome'', p_updatedAt := 500\<rparr>]\<rparr>)
   \<and> p_userId (project1\<lparr>p_sourceApp := Some ''Chrome'', p_updatedAt := 500\<rparr>)
       = p_userId project1
   \<and> p_title (project1\<lparr>p_sourceApp := Some ''Chrome'', p_updatedAt := 500\<rparr>)
       = p_title project1
   \<and> p_updatedAt project1 \<le> p_updatedAt
        (project1\<lparr>p_sourceApp := Some ''Chrome'', p_updatedAt := 500\<rparr>)"
proof -
  have run: "server UpdateProject (JObj [(''id'', JStr uuid1), (''sourceApp'', JStr ''Chrome'')])
        (signedIn alice) (reading uuid5 500) store1
       = (Inr (Response True (ProjectData (Some
            (project1\<lparr>p_sourceApp := Some ''Chrome'', p_updatedAt := 500\<rparr>)))),
          store1\<lparr>ScreenshotProjects :=
            [project1\<lparr>p_sourceApp := Some ''Chrome'', p_updatedAt := 500\<rparr>]\<rparr>)"
    by (simp add: store1_eq run_defs example_defs)
  have sch: "updateProject_schema (JObj [(''id'', JStr uuid1), (''sourceApp'', JStr ''Chrome'')])
     = Inr \<lparr>up_id = uuid1, up_title = None, up_description = None, up_sourceDevice = None,
            up_sourceApp = Some ''Chrome''\<rparr>"
    by (simp add: schema_defs example_defs)
  have t: "now (reading uuid5 500) = 500" by (simp add: reading_def)
  from updates_are_partial_and_keep_the_owner [OF reachable_store1,
      where raw = "JObj [(''id'', JStr uuid1), (''sourceApp'', JStr ''Chrome'')]"
        and ctx = "signedIn alice" and e = "reading uuid5 500"
        and r = "Response True (ProjectData (Some
            (project1\<lparr>p_sourceApp := Some ''Chrome'', p_updatedAt := 500\<rparr>)))"
        and s' = "store1\<lparr>ScreenshotProjects :=
            [project1\<lparr>p_sourceApp := Some ''Chrome'', p_updatedAt := 500\<rparr>]\<rparr>"] run
  obtain i old new where
    "updateProject_schema (JObj [(''id'', JStr uuid1), (''sourceApp'', JStr ''Chrome'')]) = Inr i"
    "old \<in> set (ScreenshotProjects store1)"
    "data (Response True (ProjectData (Some
            (project1\<lparr>p_sourceApp := Some ''Chrome'', p_updatedAt := 500\<rparr>))))
       = ProjectData (Some new)"
    "p_userId new = p_userId old"
    "p_title new = (case up_title i of None \<Rightarrow> p_title old | Some v \<Rightarrow> Some v)"
    "p_updatedAt old \<le> now (reading uuid5 500) \<longrightarrow> p_updatedAt old \<le> p_updatedAt new"
    by blast
  then have "p_userId (project1\<lparr>p_sourceApp := Some ''Chrome'', p_updatedAt := 500\<rparr>)
       = p_userId project1"
    "p_title (project1\<lparr>p_sourceApp := Some ''Chrome'', p_updatedAt := 500\<rparr>)
       = p_title project1"
    "p_updatedAt project1 \<le> p_updatedAt
        (project1\<lparr>p_sourceApp := Some ''Chrome'', p_updatedAt := 500\<rparr>)"
    using sch t by (auto simp: store1_eq project1_def)
  with reachable_store1 run show ?thesis by blast
qed

text \<open>
  C5 as stated fails: \<^verbatim>\<open>updatedAt\<close> is whatever \<^verbatim>\<open>new Date()\<close> reads, and a
  reading earlier than the stored value lowers it.
\<close>

theorem update_with_earlier_clock_counterexample:
  "reachable store1 \<and> ScreenshotProjects store1 = [project1] \<and> p_updatedAt project1 = 100
   \<and> server UpdateProject (JObj [(''id'', JStr uuid1), (''sourceApp'', JStr ''Chrome'')])
        (signedIn alice) (reading uuid5 50) store1
       = (Inr (Response True (ProjectData (Some
            (project1\<lparr>p_sourceApp := Some ''Chrome'', p_updatedAt := 50\<rparr>)))),
          store1\<lparr>ScreenshotProjects :=
            [project1\<lparr>p_sourceApp := Some ''Chrome'', p_updatedAt := 50\<rparr>]\<rparr>)
   \<and> p_updatedAt (project1\<lparr>p_sourceApp := Some ''Chrome'', p_updatedAt := 50\<rparr>)
       < p_updatedAt project1"
  using reachable_store1 by (simp add: store1_eq run_defs example_defs)

text \<open>
  C8, as amended. For an authenticated caller and an input that parses: when a non-empty
  \<^verbatim>\<open>projectId\<close> is given and no project with that id is owned by the caller,
  \<^verbatim>\<open>listScreenshots\<close> fails with \<^verbatim>\<open>NOT_FOUND\<close>; otherwise it returns exactly the
  caller's screenshots, restricted to that project when a non-empty \<^verbatim>\<open>projectId\<close>
  is given, with \<^verbatim>\<open>total\<close> their number. An empty-string \<^verbatim>\<open>projectId\<close> is
  treated as absent: no ownership check and no project filter.
\<close>

theorem listScreenshots_checks_nonempty_projectId:
  assumes "requireUser ctx = Inr u" "listScreenshots_schema raw = Inr i"
  shows "server ListScreenshots raw ctx e s =
     (if (\<exists>pid. ls_projectId i = Some pid \<and> pid \<noteq> []
            \<and> (\<forall>p \<in> set (ScreenshotProjects s). \<not> (p_id p = pid \<and> p_userId p = user_id u)))
      then (Inl (ActionError NOT_FOUND ''Project not found.''), s)
      else (Inr (Response True
             (ScreenshotItems
               (filter (\<lambda>r. s_userId r = user_id u
                    \<and> (\<forall>pid. ls_projectId i = Some pid \<and> pid \<noteq> [] \<longrightarrow> s_projectId r = Some pid))
                  (Screenshots s))
               (length (filter (\<lambda>r. s_userId r = user_id u
                    \<and> (\<forall>pid. ls_projectId i = Some pid \<and> pid \<noteq> [] \<longrightarrow> s_projectId r = Some pid))
                  (Screenshots s))))), s))"
proof (cases "ls_projectId i")
  case None
  with assms show ?thesis
    by (simp add: defineAction_def listScreenshots_handler_def Let_def)
next
  case (Some pid)
  show ?thesis
  proof (cases "pid = []")
    case True
    with Some assms show ?thesis
      by (simp add: defineAction_def listScreenshots_handler_def truthy_def Let_def)
  next
    case False
    show ?thesis
    proof (cases "getOwnedProject pid (user_id u) s")
      case (Inl err)
      then have nf: "getOwnedProject pid (user_id u) s
          = Inl (ActionError NOT_FOUND ''Project not found.'')"
        by (auto simp: getOwnedProject_def split: option.splits)
      with Some False assms nf [unfolded getOwnedProject_NotFound] show ?thesis
        by (simp add: defineAction_def listScreenshots_handler_def truthy_def discard_def Let_def)
    next
      case (Inr p)
      then have "\<not> (\<forall>p \<in> set (ScreenshotProjects s). \<not> (p_id p = pid \<and> p_userId p = user_id u))"
        using getOwnedProject_NotFound [of pid "user_id u" s] by simp
      with Some False assms Inr show ?thesis
        by (simp add: defineAction_def listScreenshots_handler_def truthy_def discard_def Let_def)
    qed
  qed
qed

theorem listScreenshots_checks_nonempty_projectId_witness:
  "requireUser (signedIn alice) = Inr alice
   \<and> listScreenshots_schema (JObj [(''projectId'', JStr ''nonexistent'')])
       = Inr \<lparr>ls_projectId = Some ''nonexistent''\<rparr>
   \<and> server ListScreenshots (JObj [(''projectId'', JStr ''nonexistent'')]) (signedIn alice)
        (reading uuid5 500) store2
       = (Inl (ActionError NOT_FOUND ''Project not found.''), store2)
   \<and> listScreenshots_schema (JObj [(''projectId'', JStr uuid1)])
       = Inr \<lparr>ls_projectId = Some uuid1\<rparr>
   \<and> server ListScreenshots (JObj [(''projectId'', JStr uuid1)]) (signedIn alice)
        (reading uuid5 500) store2
       = (Inr (Response True (ScreenshotItems [screenshot2] 1)), store2)"
proof -
  have sch: "listScreenshots_schema (JObj [(''projectId'', JStr ''nonexistent'')])
       = Inr \<lparr>ls_projectId = Some ''nonexistent''\<rparr>"
    "listScreenshots_schema (JObj [(''projectId'', JStr uuid1)])
       = Inr \<lparr>ls_projectId = Some uuid1\<rparr>"
    by (simp_all add: schema_defs)
  have "server ListScreenshots (JObj [(''projectId'', JStr ''nonexistent'')]) (signedIn alice)
        (reading uuid5 500) store2
       = (Inl (ActionError NOT_FOUND ''Project not found.''), store2)"
    using listScreenshots_checks_nonempty_projectId
      [OF requireUser_signedIn [of alice] sch(1), of "reading uuid5 500" store2]
    by (simp add: store2_eq example_defs)
  moreover have "server ListScreenshots (JObj [(''projectId'', JStr uuid1)]) (signedIn alice)
        (reading uuid5 500) store2
       = (Inr (Response True (ScreenshotItems [screenshot2] 1)), store2)"
    using listScreenshots_checks_nonempty_projectId
      [OF requireUser_signedIn [of alice] sch(2), of "reading uuid5 500" store2]
    by (simp add: store2_eq example_defs)
  ultimately show ?thesis using sch by (simp add: requireUser_signedIn)
qed

text \<open>
  C8 as stated fails: with the empty string as \<^verbatim>\<open>projectId\<close>, which resolves to no
  project, the action succeeds, and returns screenshots of other projects.
\<close>

theorem listScreenshots_empty_projectId_counterexample:
  "getOwnedProject [] (user_id alice) store2
     = Inl (ActionError NOT_FOUND ''Project not found.'')
   \<and> server ListScreenshots (JObj [(''projectId'', JStr [])]) (signedIn alice)
        (reading uuid5 500) store2
       = (Inr (Response True (ScreenshotItems [screenshot2] 1)), store2)
   \<and> s_projectId screenshot2 \<noteq> Some []"
  by (simp add: store2_eq run_defs example_defs)

text \<open>
  C3. \<^verbatim>\<open>createScreenshot\<close> tests \<^verbatim>\<open>projectId\<close> for truthiness but stores
  \<^verbatim>\<open>projectId ?? null\<close>: with the empty string the ownership check is skipped and
  the screenshot is stored with a \<^verbatim>\<open>projectId\<close> that references no project (where
  foreign keys are enforced the insert is rejected instead; in neither case is the error
  \<^verbatim>\<open>NOT_FOUND\<close>). \<^verbatim>\<open>updateScreenshot\<close>, on the same \<^verbatim>\<open>projectId\<close>, does
  make the check. The empty string is the only way past it: a non-empty
  \<^verbatim>\<open>projectId\<close> of a reachable store always references a project of the same user
  (\<open>reachable_projectsOwned\<close>).
\<close>

theorem createScreenshot_empty_projectId_is_not_checked:
  "[] \<notin> set (map p_id (ScreenshotProjects store1))
   \<and> server CreateScreenshot
        (JObj [(''projectId'', JStr []), (''originalImageUrl'', JStr ''img://1'')])
        (signedIn alice) (reading uuid2 200) store1
       = (Inr (Response True (ScreenshotData (Some (screenshot2\<lparr>s_projectId := Some []\<rparr>)))),
          store1\<lparr>Screenshots := [screenshot2\<lparr>s_projectId := Some []\<rparr>]\<rparr>)
   \<and> server CreateScreenshot
        (JObj [(''projectId'', JStr []), (''originalImageUrl'', JStr ''img://1'')])
        (signedIn alice) (reading uuid2 200) (emptyStore True)
       = (Inl PersistenceFailure, emptyStore True)
   \<and> server UpdateScreenshot (JObj [(''id'', JStr uuid2), (''projectId'', JStr [])])
        (signedIn alice) (reading uuid5 500) store2
       = (Inl (ActionError NOT_FOUND ''Project not found.''), store2)"
  by (simp add: store1_eq store2_eq run_defs example_defs)

end
